theory Spec2Isabelle
  imports Main "HOL-Library.Sublist"
begin

section \<open>Python string primitives used by the barcode trimmer\<close>

text \<open>
  A Python \<open>str\<close> is modelled as a \<open>string\<close> (a list of characters). The model covers
  ASCII text, which is what FASTA and FASTQ files hold: \<open>upper\<close> and \<open>lower\<close> change
  the letters a-z and A-Z only, and \<open>strip\<close> removes the ASCII white space of
  \<open>str.isspace\<close> (code points 9-13 and 28-32).
\<close>

definition is_space :: "char \<Rightarrow> bool" where
  "is_space c = (let n = (of_char c :: nat) in (9 \<le> n \<and> n \<le> 13) \<or> (28 \<le> n \<and> n \<le> 32))"

definition strip :: "string \<Rightarrow> string" where
  "strip s = rev (dropWhile is_space (rev (dropWhile is_space s)))"

definition ascii_lowercase :: string where
  "ascii_lowercase = ''abcdefghijklmnopqrstuvwxyz''"

definition ascii_uppercase :: string where
  "ascii_uppercase = ''ABCDEFGHIJKLMNOPQRSTUVWXYZ''"

definition upper_char :: "char \<Rightarrow> char" where
  "upper_char c =
     (case map_of (zip ascii_lowercase ascii_uppercase) c of None \<Rightarrow> c | Some u \<Rightarrow> u)"

definition lower_char :: "char \<Rightarrow> char" where
  "lower_char c =
     (case map_of (zip ascii_uppercase ascii_lowercase) c of None \<Rightarrow> c | Some u \<Rightarrow> u)"

definition upper :: "string \<Rightarrow> string" where
  "upper s = map upper_char s"

definition lower :: "string \<Rightarrow> string" where
  "lower s = map lower_char s"

text \<open>\<open>s.split('\n')\<close>: the pieces between line feeds; never an empty list.\<close>

fun split_nl :: "string \<Rightarrow> string list" where
  "split_nl [] = [[]]"
| "split_nl (c # cs) =
     (if c = CHR 0x0A then [] # split_nl cs
      else (case split_nl cs of [] \<Rightarrow> [[c]] | l # ls \<Rightarrow> (c # l) # ls))"

text \<open>\<open>'\n'.join(ls)\<close>.\<close>

fun join_nl :: "string list \<Rightarrow> string" where
  "join_nl [] = []"
| "join_nl [l] = l"
| "join_nl (l # ls) = l @ CHR 0x0A # join_nl ls"

text \<open>\<open>line.startswith('>')\<close>.\<close>

definition is_header :: "string \<Rightarrow> bool" where
  "is_header line = (case line of [] \<Rightarrow> False | c # _ \<Rightarrow> c = CHR ''>'')"

text \<open>\<open>a in s\<close> on strings: \<open>a\<close> occurs in \<open>s\<close> as a contiguous substring.\<close>

definition str_contains :: "string \<Rightarrow> string \<Rightarrow> bool" where
  "str_contains s a = sublist a s"


section \<open>Adapter loader\<close>

text \<open>
  Modelled from the spec: \<open>Seq.reverse_complement\<close> belongs to Biopython and is not part
  of the sources. The spec (4.3 and the glossary) gives it as reversing the order and
  swapping A with T and C with G, every other symbol passing through unchanged.
\<close>

definition complement :: "char \<Rightarrow> char" where
  "complement c =
     (if c = CHR ''A'' then CHR ''T''
      else if c = CHR ''T'' then CHR ''A''
      else if c = CHR ''C'' then CHR ''G''
      else if c = CHR ''G'' then CHR ''C''
      else c)"

definition reverse_complement :: "string \<Rightarrow> string" where
  "reverse_complement s = rev (map complement s)"

text \<open>
  \<open>load_adapters\<close>, lines 66-89. The loop state is the pair \<open>(adapters, current_seq)\<close>;
  \<open>flush_adapter\<close> is the block guarded by \<open>if current_seq:\<close>, which occurs at a header
  line and once more after the loop.
\<close>

definition flush_adapter :: "string list \<Rightarrow> string \<Rightarrow> string list" where
  "flush_adapter adapters current_seq =
     (if current_seq \<noteq> [] then
        (let seq = upper current_seq in adapters @ [seq] @ [reverse_complement seq])
      else adapters)"

fun load_adapters_loop :: "string list \<Rightarrow> string list \<times> string \<Rightarrow> string list \<times> string" where
  "load_adapters_loop [] st = st"
| "load_adapters_loop (l # ls) (adapters, current_seq) =
     (let line = strip l in
      if is_header line then load_adapters_loop ls (flush_adapter adapters current_seq, [])
      else load_adapters_loop ls (adapters, current_seq @ line))"

definition load_adapters :: "string \<Rightarrow> string list" where
  "load_adapters fasta_content =
     (let lines = split_nl (strip fasta_content);
          (adapters, current_seq) = load_adapters_loop lines ([], [])
      in flush_adapter adapters current_seq)"


text \<open>
  The adapter parser of \<open>simple_filter_fallback\<close>, lines 189-203: the same loop, but only
  the upper-cased forward sequence is appended.
\<close>

definition flush_fallback :: "string list \<Rightarrow> string \<Rightarrow> string list" where
  "flush_fallback adapters current_seq =
     (if current_seq \<noteq> [] then adapters @ [upper current_seq] else adapters)"

fun fallback_adapters_loop :: "string list \<Rightarrow> string list \<times> string \<Rightarrow> string list \<times> string" where
  "fallback_adapters_loop [] st = st"
| "fallback_adapters_loop (l # ls) (adapters, current_seq) =
     (let line = strip l in
      if is_header line then fallback_adapters_loop ls (flush_fallback adapters current_seq, [])
      else fallback_adapters_loop ls (adapters, current_seq @ line))"

definition fallback_adapters :: "string \<Rightarrow> string list" where
  "fallback_adapters adapter_content =
     (let lines = split_nl (strip adapter_content);
          (adapters, current_seq) = fallback_adapters_loop lines ([], [])
      in flush_fallback adapters current_seq)"

text \<open>
  The records of a FASTA adapter text, for stating what the loaders return:
  \<open>record_bodies cur lines\<close> cuts the lines at every header line and concatenates the
  stripped lines in between, \<open>cur\<close> being the text collected so far. \<open>fasta_bodies\<close> is
  the sequence body of every \<open>>\<close> record in input order, preceded by the text in front
  of the first header when there is any.
\<close>

fun record_bodies :: "string \<Rightarrow> string list \<Rightarrow> string list" where
  "record_bodies cur [] = [cur]"
| "record_bodies cur (l # ls) =
     (let line = strip l in
      if is_header line then cur # record_bodies [] ls
      else record_bodies (cur @ line) ls)"

definition fasta_bodies :: "string list \<Rightarrow> string list" where
  "fasta_bodies lines =
     (case record_bodies [] lines of [] \<Rightarrow> [] | b # bs \<Rightarrow> if b = [] then bs else b # bs)"

definition adapter_pair :: "string \<Rightarrow> string list" where
  "adapter_pair s = [upper s, reverse_complement (upper s)]"


section \<open>Format detector\<close>

text \<open>
  \<open>Path(filename).suffix\<close> on a POSIX path. The name is the last component of the path,
  where empty components and \<open>.\<close> components (hence trailing separators) do not count;
  the suffix is the text of the name from its last dot on, provided that dot is neither
  the first nor the last character of the name, and empty otherwise.
\<close>

fun split_at :: "char \<Rightarrow> string \<Rightarrow> string list" where
  "split_at sep [] = [[]]"
| "split_at sep (c # cs) =
     (if c = sep then [] # split_at sep cs
      else (case split_at sep cs of [] \<Rightarrow> [[c]] | l # ls \<Rightarrow> (c # l) # ls))"

definition path_parts :: "string \<Rightarrow> string list" where
  "path_parts p = filter (\<lambda>part. part \<noteq> [] \<and> part \<noteq> ''.'') (split_at CHR ''/'' p)"

definition path_name :: "string \<Rightarrow> string" where
  "path_name p = (case rev (path_parts p) of [] \<Rightarrow> [] | name # _ \<Rightarrow> name)"

definition path_suffix :: "string \<Rightarrow> string" where
  "path_suffix p =
     (let r = rev (path_name p);
          ext = takeWhile (\<lambda>c. c \<noteq> CHR ''.'') r;
          stem = dropWhile (\<lambda>c. c \<noteq> CHR ''.'') r
      in if ext \<noteq> [] \<and> 1 < length stem then CHR ''.'' # rev ext else [])"

definition file_format_from_name :: "string \<Rightarrow> string" where
  "file_format_from_name filename =
     (let ext = lower (path_suffix filename) in
      if ext \<in> {''.fa'', ''.fasta''} then ''fasta''
      else if ext \<in> {''.fq'', ''.fastq''} then ''fastq''
      else ''fastq'')"


section \<open>Records and the record codec\<close>

text \<open>The \<open>params\<close> dictionary built by the caller: five integers under fixed keys.\<close>

record params =
  min_score :: int
  match :: int
  mismatch :: int
  gap_open :: int
  gap_extend :: int

text \<open>The sequence record of the spec's data model (section 3).\<close>

record seq_record =
  rec_id :: string
  rec_description :: string
  rec_seq :: string
  rec_quality :: "string option"

text \<open>
  The reads of a text, as both classifiers cut them out of its lines.
  \<open>fasta_entries h s lines\<close>: the pairs of a header line and its concatenated sequence
  lines, \<open>h\<close> and \<open>s\<close> being the header and sequence collected so far; a header without
  sequence, and sequence text without header, give no entry.
  \<open>fastq_entries lines\<close>: the complete groups of four lines.
\<close>

definition fasta_entry :: "string \<Rightarrow> string \<Rightarrow> (string \<times> string) list" where
  "fasta_entry h s = (if h \<noteq> [] \<and> s \<noteq> [] then [(h, s)] else [])"

fun fasta_entries :: "string \<Rightarrow> string \<Rightarrow> string list \<Rightarrow> (string \<times> string) list" where
  "fasta_entries h s [] = fasta_entry h s"
| "fasta_entries h s (l # ls) =
     (let line = strip l in
      if is_header line then fasta_entry h s @ fasta_entries line [] ls
      else fasta_entries h (s @ line) ls)"

fun fastq_entries :: "string list \<Rightarrow> string list list" where
  "fastq_entries (a # b # c # d # rest) = [a, b, c, d] # fastq_entries rest"
| "fastq_entries _ = []"

text \<open>
  Modelled from the spec: \<open>SeqIO.parse\<close> and \<open>SeqIO.write\<close> belong to Biopython and are
  not part of the sources. Spec 4.2: a FASTA record is a header line followed by its
  sequence lines, concatenated up to the next header or the end of the input, and a
  record with an empty sequence is dropped; a FASTQ record is four lines (id, sequence,
  separator, quality) and an incomplete last group is dropped. Serialising writes
  FASTA sequences on one line and FASTQ records on four lines with a \<open>+\<close> separator.
  Spec 3: the id is the first word of the header line, the description the text after it.
\<close>

definition header_id :: "string \<Rightarrow> string" where
  "header_id h = takeWhile (\<lambda>c. \<not> is_space c) (tl h)"

definition header_description :: "string \<Rightarrow> string" where
  "header_description h = strip (dropWhile (\<lambda>c. \<not> is_space c) (tl h))"

definition fasta_record :: "string \<times> string \<Rightarrow> seq_record" where
  "fasta_record e =
     \<lparr>rec_id = header_id (fst e), rec_description = header_description (fst e),
      rec_seq = snd e, rec_quality = None\<rparr>"

definition fastq_record :: "string list \<Rightarrow> seq_record" where
  "fastq_record g =
     \<lparr>rec_id = header_id (strip (g ! 0)), rec_description = header_description (strip (g ! 0)),
      rec_seq = strip (g ! 1), rec_quality = Some (strip (g ! 3))\<rparr>"

definition SeqIO_parse :: "string \<Rightarrow> string \<Rightarrow> seq_record list" where
  "SeqIO_parse content fmt =
     (let lines = split_nl (strip content) in
      if fmt = ''fastq'' then map fastq_record (fastq_entries lines)
      else map fasta_record (fasta_entries [] [] lines))"

definition title_line :: "char \<Rightarrow> seq_record \<Rightarrow> string" where
  "title_line marker r =
     marker # rec_id r @ (if rec_description r = [] then [] else CHR '' '' # rec_description r)"

definition record_lines :: "string \<Rightarrow> seq_record \<Rightarrow> string list" where
  "record_lines fmt r =
     (if fmt = ''fastq'' then
        [title_line CHR ''@'' r, rec_seq r, ''+'',
         (case rec_quality r of None \<Rightarrow> [] | Some q \<Rightarrow> q)]
      else [title_line CHR ''>'' r, rec_seq r])"

definition SeqIO_write :: "seq_record list \<Rightarrow> string \<Rightarrow> string" where
  "SeqIO_write records fmt =
     concat (map (\<lambda>l. l @ [CHR 0x0A]) (concat (map (record_lines fmt) records)))"


section \<open>Alignment engine\<close>

text \<open>
  Modelled from the spec: \<open>parasail.matrix_create\<close> and \<open>parasail.sw_scan_16\<close> belong to
  the parasail library and are not part of the sources. Spec 4.4: the score is that of
  the best local alignment (Smith-Waterman: it may start and end anywhere in either
  sequence, and the empty alignment scores 0), a substitution scores \<open>match\<close> when the
  symbols are equal and \<open>mismatch\<close> otherwise, and a gap of length \<open>k\<close> costs
  \<open>gap_open + (k - 1) * gap_extend\<close>. It is computed by the standard recurrence, row by
  row: \<open>H\<close> is the best score of an alignment ending in a cell, \<open>E\<close> and \<open>F\<close> the best
  scores of one ending there in a horizontal or a vertical gap (\<open>None\<close> on the border,
  where no gap can end). The recurrence opens a gap from \<open>H\<close>, so it charges a run of
  \<open>k\<close> gap positions the spec's cost whenever \<open>gap_extend \<le> gap_open\<close>, as in the
  tool's defaults 5 and 1; were \<open>gap_open\<close> smaller, it would charge the cheaper cost of
  several shorter gaps.
\<close>

definition matrix_create :: "string \<Rightarrow> int \<Rightarrow> int \<Rightarrow> char \<Rightarrow> char \<Rightarrow> int" where
  "matrix_create alphabet m mm a b = (if a = b then m else mm)"

definition gap_score :: "int \<Rightarrow> int \<Rightarrow> int option \<Rightarrow> int \<Rightarrow> int" where
  "gap_score go ge g h = (case g of None \<Rightarrow> h - go | Some x \<Rightarrow> max (x - ge) (h - go))"

fun sw_row ::
  "(char \<Rightarrow> char \<Rightarrow> int) \<Rightarrow> int \<Rightarrow> int \<Rightarrow> char \<Rightarrow> string \<Rightarrow> (int \<times> int option) list \<Rightarrow>
   int \<Rightarrow> int \<Rightarrow> int option \<Rightarrow> (int \<times> int option) list" where
  "sw_row m go ge a (b # bs) ((h_up, f_up) # prev) h_diag h_left e_left =
     (let e = gap_score go ge e_left h_left;
          f = gap_score go ge f_up h_up;
          h = max 0 (max (h_diag + m a b) (max e f))
      in (h, Some f) # sw_row m go ge a bs prev h_up h (Some e))"
| "sw_row m go ge a _ _ h_diag h_left e_left = []"

fun sw_rows ::
  "(char \<Rightarrow> char \<Rightarrow> int) \<Rightarrow> int \<Rightarrow> int \<Rightarrow> string \<Rightarrow> string \<Rightarrow> (int \<times> int option) list \<Rightarrow>
   int \<Rightarrow> int" where
  "sw_rows m go ge [] s2 prev best = best"
| "sw_rows m go ge (a # s1) s2 prev best =
     (let row = sw_row m go ge a s2 prev 0 0 None
      in sw_rows m go ge s1 s2 row (fold max (map fst row) best))"

text \<open>The \<open>score\<close> field of the result of \<open>sw_scan_16\<close>.\<close>

definition sw_scan_16 :: "string \<Rightarrow> string \<Rightarrow> int \<Rightarrow> int \<Rightarrow> (char \<Rightarrow> char \<Rightarrow> int) \<Rightarrow> int" where
  "sw_scan_16 s1 s2 go ge matrix = sw_rows matrix go ge s1 s2 (replicate (length s2) (0, None)) 0"


section \<open>Classifier: filter_reads_web\<close>

text \<open>
  The variable parts of the log text: the counts it prints (the parameters and the file
  name are echoed from the input, the time stamps are not modelled).
\<close>

record report =
  tool :: string
  total_reads :: nat
  adapters_loaded :: nat
  reads_kept :: nat
  reads_discarded :: nat

text \<open>
  The adapter loop, lines 134-140. The first component is \<open>contaminated\<close>; the second
  records the adapters the alignment engine was called on, in call order.
\<close>

fun scan_adapters ::
  "string \<Rightarrow> string list \<Rightarrow> params \<Rightarrow> (char \<Rightarrow> char \<Rightarrow> int) \<Rightarrow> bool \<times> string list" where
  "scan_adapters seq [] p matrix = (False, [])"
| "scan_adapters seq (adapter # rest) p matrix =
     (if sw_scan_16 seq adapter (gap_open p) (gap_extend p) matrix \<ge> min_score p
      then (True, [adapter])
      else (let (contaminated, scored) = scan_adapters seq rest p matrix
            in (contaminated, adapter # scored)))"

record web_state =
  kept_reads :: "seq_record list"
  discarded_reads :: "seq_record list"
  processed :: nat

text \<open>The body of the read loop, lines 132-145, and the loop, lines 127-145.\<close>

definition classify_read ::
  "string list \<Rightarrow> params \<Rightarrow> (char \<Rightarrow> char \<Rightarrow> int) \<Rightarrow> seq_record \<Rightarrow> web_state \<Rightarrow> web_state" where
  "classify_read adapters p matrix rec st =
     (let st1 = st\<lparr>processed := processed st + 1\<rparr>;
          seq = upper (rec_seq rec);
          contaminated = fst (scan_adapters seq adapters p matrix)
      in if contaminated then st1\<lparr>discarded_reads := discarded_reads st1 @ [rec]\<rparr>
         else st1\<lparr>kept_reads := kept_reads st1 @ [rec]\<rparr>)"

definition classify_reads ::
  "string list \<Rightarrow> params \<Rightarrow> (char \<Rightarrow> char \<Rightarrow> int) \<Rightarrow> seq_record list \<Rightarrow> web_state" where
  "classify_reads adapters p matrix records =
     fold (classify_read adapters p matrix) records
       \<lparr>kept_reads = [], discarded_reads = [], processed = 0\<rparr>"


section \<open>Fallback substring matcher: simple_filter_fallback\<close>

record fb_state =
  kept_lines :: "string list"
  discarded_lines :: "string list"
  kept_count :: nat
  discarded_count :: nat
  fb_processed :: nat

text \<open>\<open>any(adapter in seq for adapter in adapters)\<close>.\<close>

definition any_adapter_in :: "string list \<Rightarrow> string \<Rightarrow> bool" where
  "any_adapter_in adapters seq = list_ex (\<lambda>adapter. str_contains seq adapter) adapters"

text \<open>
  What both formats do with one read: count it, test it, and append its lines to one of
  the two outputs (lines 220-232, 254-262 and 275-283).
\<close>

definition fb_classify :: "string list \<Rightarrow> string \<Rightarrow> string list \<Rightarrow> fb_state \<Rightarrow> fb_state" where
  "fb_classify adapters seq read_block st =
     (let st1 = st\<lparr>fb_processed := fb_processed st + 1\<rparr>;
          contaminated = any_adapter_in adapters seq
      in if contaminated
         then st1\<lparr>discarded_lines := discarded_lines st1 @ read_block,
                  discarded_count := discarded_count st1 + 1\<rparr>
         else st1\<lparr>kept_lines := kept_lines st1 @ read_block,
                  kept_count := kept_count st1 + 1\<rparr>)"

text \<open>The FASTQ loop, lines 218-232: \<open>for i in range(0, len(reads_lines), 4)\<close>.\<close>

function fastq_loop :: "string list \<Rightarrow> string list \<Rightarrow> nat \<Rightarrow> fb_state \<Rightarrow> fb_state" where
  "fastq_loop adapters reads_lines i st =
     (if i < length reads_lines then
        fastq_loop adapters reads_lines (i + 4)
          (if i + 3 < length reads_lines then
             fb_classify adapters (upper (strip (reads_lines ! (i + 1))))
               (take 4 (drop i reads_lines)) st
           else st)
      else st)"
  by pat_completeness auto
termination
  by (relation "measure (\<lambda>(adapters, reads_lines, i, st). length reads_lines - i)") auto

declare fastq_loop.simps [simp del]

text \<open>
  The FASTA loop, lines 247-283; \<open>fasta_flush\<close> is the block guarded by
  \<open>if current_header and current_seq:\<close>.
\<close>

definition fasta_flush :: "string list \<Rightarrow> fb_state \<Rightarrow> string \<Rightarrow> string \<Rightarrow> fb_state" where
  "fasta_flush adapters st current_header current_seq =
     (if current_header \<noteq> [] \<and> current_seq \<noteq> [] then
        fb_classify adapters (upper current_seq) [current_header, current_seq] st
      else st)"

fun fasta_loop ::
  "string list \<Rightarrow> string list \<Rightarrow> fb_state \<times> string \<times> string \<Rightarrow> fb_state \<times> string \<times> string" where
  "fasta_loop adapters [] s = s"
| "fasta_loop adapters (l # ls) (st, current_header, current_seq) =
     (let line = strip l in
      if is_header line then
        fasta_loop adapters ls (fasta_flush adapters st current_header current_seq, line, [])
      else fasta_loop adapters ls (st, current_header, current_seq @ line))"

definition fallback_partition :: "string list \<Rightarrow> string \<Rightarrow> string list \<Rightarrow> fb_state" where
  "fallback_partition adapters fmt reads_lines =
     (let st0 = \<lparr>kept_lines = [], discarded_lines = [], kept_count = 0, discarded_count = 0,
                fb_processed = 0\<rparr>
      in if fmt = ''fastq'' then fastq_loop adapters reads_lines 0 st0
         else (case fasta_loop adapters reads_lines (st0, [], []) of
                 (st, current_header, current_seq) \<Rightarrow>
                   fasta_flush adapters st current_header current_seq))"

definition lines_content :: "string list \<Rightarrow> string" where
  "lines_content ls = (if ls \<noteq> [] then join_nl ls @ [CHR 0x0A] else [])"

definition simple_filter_fallback ::
  "string \<Rightarrow> string \<Rightarrow> string \<Rightarrow> params \<Rightarrow> string \<times> string \<times> report" where
  "simple_filter_fallback adapter_content reads_content reads_filename p =
     (let adapters = fallback_adapters adapter_content;
          fmt = file_format_from_name reads_filename;
          reads_lines = split_nl (strip reads_content);
          st = fallback_partition adapters fmt reads_lines;
          total = fb_processed st
      in (lines_content (kept_lines st), lines_content (discarded_lines st),
          \<lparr>tool = ''Simple substring-based filter'', total_reads = total,
           adapters_loaded = length adapters, reads_kept = kept_count st,
           reads_discarded = discarded_count st\<rparr>))"

text \<open>
  \<open>filter_reads_web\<close>, lines 100-184. The first argument is the module's flag
  \<open>DEPENDENCIES_AVAILABLE\<close>.
\<close>

definition filter_reads_web ::
  "bool \<Rightarrow> string \<Rightarrow> string \<Rightarrow> string \<Rightarrow> params \<Rightarrow> string \<times> string \<times> report" where
  "filter_reads_web dependencies_available adapter_content reads_content reads_filename p =
     (if \<not> dependencies_available then
        simple_filter_fallback adapter_content reads_content reads_filename p
      else
        (let adapters = load_adapters adapter_content;
             matrix = matrix_create ''ACGT'' (match p) (mismatch p);
             fmt = file_format_from_name reads_filename;
             total_reads = length (SeqIO_parse reads_content fmt);
             st = classify_reads adapters p matrix (SeqIO_parse reads_content fmt)
         in (SeqIO_write (kept_reads st) fmt, SeqIO_write (discarded_reads st) fmt,
             \<lparr>tool = ''Parasail SIMD Smith-Waterman Filter'', total_reads = total_reads,
              adapters_loaded = length adapters div 2, reads_kept = length (kept_reads st),
              reads_discarded = length (discarded_reads st)\<rparr>)))"

text \<open>
  The reads of the fallback as pairs of the sequence it tests and the lines it writes,
  for stating where each read goes.
\<close>

definition fallback_entries :: "string \<Rightarrow> string list \<Rightarrow> (string \<times> string list) list" where
  "fallback_entries fmt reads_lines =
     (if fmt = ''fastq'' then
        map (\<lambda>g. (upper (strip (g ! 1)), g)) (fastq_entries reads_lines)
      else map (\<lambda>(h, s). (upper s, [h, s])) (fasta_entries [] [] reads_lines))"

text \<open>The flag \<open>contaminated\<close> that the read loop computes for a record.\<close>

definition contaminated ::
  "string list \<Rightarrow> params \<Rightarrow> (char \<Rightarrow> char \<Rightarrow> int) \<Rightarrow> seq_record \<Rightarrow> bool" where
  "contaminated adapters p matrix rec = fst (scan_adapters (upper (rec_seq rec)) adapters p matrix)"

text \<open>
  \<open>fb_route adapters es st\<close>: the state \<open>st\<close> after the reads \<open>es\<close>, each given as the
  sequence tested and the lines written, have been appended in order to the output their
  test selects.
\<close>

definition fb_route :: "string list \<Rightarrow> (string \<times> string list) list \<Rightarrow> fb_state \<Rightarrow> fb_state" where
  "fb_route adapters es st =
     \<lparr>kept_lines =
        kept_lines st @ concat (map snd (filter (\<lambda>e. \<not> any_adapter_in adapters (fst e)) es)),
      discarded_lines =
        discarded_lines st @ concat (map snd (filter (\<lambda>e. any_adapter_in adapters (fst e)) es)),
      kept_count = kept_count st + length (filter (\<lambda>e. \<not> any_adapter_in adapters (fst e)) es),
      discarded_count =
        discarded_count st + length (filter (\<lambda>e. any_adapter_in adapters (fst e)) es),
      fb_processed = fb_processed st + length es\<rparr>"

text \<open>The facts that evaluate the string primitives on a literal.\<close>

lemmas str_eval = strip_def is_space_def is_header_def upper_def upper_char_def
  lower_def lower_char_def ascii_lowercase_def ascii_uppercase_def


section \<open>Reverse complement\<close>

lemma complement_involution: "complement (complement c) = c"
  by (simp add: complement_def)

lemma reverse_complement_involution: "reverse_complement (reverse_complement s) = s"
  by (simp add: reverse_complement_def rev_map complement_involution comp_def)

text \<open>
  Claim C9. For every sequence over the alphabet A, C, G, T, taking the reverse
  complement twice gives the sequence back.
\<close>

theorem reverse_complement_twice:
  assumes "set S \<subseteq> {CHR ''A'', CHR ''C'', CHR ''G'', CHR ''T''}"
  shows "reverse_complement (reverse_complement S) = S"
  by (rule reverse_complement_involution)

theorem reverse_complement_twice_witness:
  "set ''ACGGT'' \<subseteq> {CHR ''A'', CHR ''C'', CHR ''G'', CHR ''T''}
   \<and> reverse_complement ''ACGGT'' = ''ACCGT''
   \<and> reverse_complement (reverse_complement ''ACGGT'') = ''ACGGT''"
proof -
  have h: "set ''ACGGT'' \<subseteq> {CHR ''A'', CHR ''C'', CHR ''G'', CHR ''T''}" by simp
  have v: "reverse_complement ''ACGGT'' = ''ACCGT''"
    by (simp add: reverse_complement_def complement_def)
  show ?thesis using h v reverse_complement_twice [OF h] by simp
qed

section \<open>What the adapter loaders return\<close>

lemma flush_adapter_eq:
  "flush_adapter ads cur = ads @ concat (map adapter_pair (filter (\<lambda>s. s \<noteq> []) [cur]))"
  by (simp add: flush_adapter_def adapter_pair_def Let_def)

lemma load_adapters_loop_bodies:
  "(case load_adapters_loop ls (ads, cur) of (a, c) \<Rightarrow> flush_adapter a c) =
     ads @ concat (map adapter_pair (filter (\<lambda>s. s \<noteq> []) (record_bodies cur ls)))"
proof (induction ls arbitrary: ads cur)
  case Nil
  show ?case by (simp add: flush_adapter_eq)
next
  case (Cons l ls)
  show ?case
  proof (cases "is_header (strip l)")
    case True
    then show ?thesis
      using Cons.IH [of "flush_adapter ads cur" "[]"]
      by (simp add: flush_adapter_eq)
  next
    case False
    then show ?thesis
      using Cons.IH [of ads "cur @ strip l"] by simp
  qed
qed

lemma filter_fasta_bodies:
  "filter (\<lambda>s. s \<noteq> []) (fasta_bodies ls) = filter (\<lambda>s. s \<noteq> []) (record_bodies [] ls)"
  by (simp add: fasta_bodies_def split: list.splits)

lemma load_adapters_bodies:
  "load_adapters txt =
     concat (map adapter_pair (filter (\<lambda>s. s \<noteq> []) (fasta_bodies (split_nl (strip txt)))))"
  using load_adapters_loop_bodies [of "split_nl (strip txt)" "[]" "[]"]
  by (simp add: load_adapters_def filter_fasta_bodies)

lemma length_concat_pairs: "length (concat (map adapter_pair xs)) = 2 * length xs"
  by (induction xs) (simp_all add: adapter_pair_def)

text \<open>
  Claim C5. \<open>load_adapters\<close> appends, for every record of the adapter text with a
  non-empty sequence and in input order, the upper-cased sequence immediately followed
  by its reverse complement, and nothing for a record whose sequence is empty: it
  returns twice as many adapters as there are records with a non-empty sequence, which
  is \<open>2 * N\<close> when all \<open>N\<close> records have one.
\<close>

theorem load_adapters_two_per_record:
  "load_adapters txt =
     concat (map adapter_pair (filter (\<lambda>s. s \<noteq> []) (fasta_bodies (split_nl (strip txt)))))
   \<and> length (load_adapters txt) =
       2 * length (filter (\<lambda>s. s \<noteq> []) (fasta_bodies (split_nl (strip txt))))
   \<and> ((\<forall>s \<in> set (fasta_bodies (split_nl (strip txt))). s \<noteq> []) \<longrightarrow>
        load_adapters txt = concat (map adapter_pair (fasta_bodies (split_nl (strip txt))))
        \<and> length (load_adapters txt) = 2 * length (fasta_bodies (split_nl (strip txt))))"
proof -
  let ?bs = "fasta_bodies (split_nl (strip txt))"
  have a: "load_adapters txt = concat (map adapter_pair (filter (\<lambda>s. s \<noteq> []) ?bs))"
    by (rule load_adapters_bodies)
  have b: "length (load_adapters txt) = 2 * length (filter (\<lambda>s. s \<noteq> []) ?bs)"
    by (simp only: a length_concat_pairs)
  have c: "(\<forall>s \<in> set ?bs. s \<noteq> []) \<longrightarrow> filter (\<lambda>s. s \<noteq> []) ?bs = ?bs"
    by simp
  from a b c show ?thesis by metis
qed

theorem load_adapters_two_per_record_witness:
  "fasta_bodies (split_nl (strip ''>A1\<newline>acgt\<newline>>A2\<newline>TTG'')) = [''acgt'', ''TTG'']
   \<and> load_adapters ''>A1\<newline>acgt\<newline>>A2\<newline>TTG'' = [''ACGT'', ''ACGT'', ''TTG'', ''CAA'']
   \<and> length (load_adapters ''>A1\<newline>acgt\<newline>>A2\<newline>TTG'') = 2 * 2"
proof -
  have b: "fasta_bodies (split_nl (strip ''>A1\<newline>acgt\<newline>>A2\<newline>TTG'')) = [''acgt'', ''TTG'']"
    by (simp add: fasta_bodies_def str_eval)
  have h: "\<forall>s \<in> set (fasta_bodies (split_nl (strip ''>A1\<newline>acgt\<newline>>A2\<newline>TTG''))). s \<noteq> []"
    by (simp add: b)
  have p1: "adapter_pair ''acgt'' = [''ACGT'', ''ACGT'']"
    by (simp add: adapter_pair_def str_eval reverse_complement_def complement_def)
  have p2: "adapter_pair ''TTG'' = [''TTG'', ''CAA'']"
    by (simp add: adapter_pair_def str_eval reverse_complement_def complement_def)
  from load_adapters_two_per_record [of "''>A1\<newline>acgt\<newline>>A2\<newline>TTG''"] h
  have "load_adapters ''>A1\<newline>acgt\<newline>>A2\<newline>TTG'' =
          concat (map adapter_pair (fasta_bodies (split_nl (strip ''>A1\<newline>acgt\<newline>>A2\<newline>TTG''))))
        \<and> length (load_adapters ''>A1\<newline>acgt\<newline>>A2\<newline>TTG'') =
          2 * length (fasta_bodies (split_nl (strip ''>A1\<newline>acgt\<newline>>A2\<newline>TTG'')))"
    by blast
  then show ?thesis by (simp add: b p1 p2)
qed

lemma load_loop_no_header:
  "\<forall>l \<in> set ls. \<not> is_header (strip l) \<Longrightarrow>
   load_adapters_loop ls (ads, cur) = (ads, cur @ concat (map strip ls))"
  by (induction ls arbitrary: cur) simp_all

lemma fallback_loop_no_header:
  "\<forall>l \<in> set ls. \<not> is_header (strip l) \<Longrightarrow>
   fallback_adapters_loop ls (ads, cur) = (ads, cur @ concat (map strip ls))"
  by (induction ls arbitrary: cur) simp_all

text \<open>
  Claim C10. For an adapter text without a header line (no line starts with \<open>>\<close> once
  stripped) and with at least one line that is not blank, \<open>load_adapters\<close> returns
  exactly two adapters, the upper-cased concatenation of the stripped lines and its
  reverse complement, and the adapter parser of the fallback returns exactly one, the
  upper-cased concatenation.
\<close>

theorem headerless_adapter_text:
  assumes "\<forall>l \<in> set (split_nl (strip txt)). \<not> is_header (strip l)"
    and "\<exists>l \<in> set (split_nl (strip txt)). strip l \<noteq> []"
  shows "load_adapters txt =
           [upper (concat (map strip (split_nl (strip txt)))),
            reverse_complement (upper (concat (map strip (split_nl (strip txt)))))]
         \<and> length (load_adapters txt) = 2
         \<and> fallback_adapters txt = [upper (concat (map strip (split_nl (strip txt))))]
         \<and> length (fallback_adapters txt) = 1"
proof -
  let ?ls = "split_nl (strip txt)"
  from assms(2) have ne: "concat (map strip ?ls) \<noteq> []" by auto
  have l: "load_adapters_loop ?ls ([], []) = ([], concat (map strip ?ls))"
    using load_loop_no_header [OF assms(1), of "[]" "[]"] by simp
  have f: "fallback_adapters_loop ?ls ([], []) = ([], concat (map strip ?ls))"
    using fallback_loop_no_header [OF assms(1), of "[]" "[]"] by simp
  show ?thesis
    using ne by (simp add: load_adapters_def fallback_adapters_def l f
        flush_adapter_def flush_fallback_def Let_def)
qed

theorem headerless_adapter_text_witness:
  "split_nl (strip ''acgt\<newline> tt '') = [''acgt'', '' tt'']
   \<and> \<not> is_header (strip ''acgt'') \<and> \<not> is_header (strip '' tt'') \<and> strip ''acgt'' \<noteq> []
   \<and> load_adapters ''acgt\<newline> tt '' = [''ACGTTT'', ''AAACGT'']
   \<and> fallback_adapters ''acgt\<newline> tt '' = [''ACGTTT'']"
proof -
  have s: "split_nl (strip ''acgt\<newline> tt '') = [''acgt'', '' tt'']"
    by (simp add: strip_def is_space_def)
  have h1: "\<forall>l \<in> set (split_nl (strip ''acgt\<newline> tt '')). \<not> is_header (strip l)"
    by (simp add: s str_eval)
  have h2: "\<exists>l \<in> set (split_nl (strip ''acgt\<newline> tt '')). strip l \<noteq> []"
    by (simp add: s str_eval)
  show ?thesis
    using headerless_adapter_text [OF h1 h2]
    by (simp add: s str_eval reverse_complement_def complement_def)
qed


section \<open>Threshold classification\<close>

lemma scan_adapters_fst:
  "fst (scan_adapters seq adapters p matrix) =
     (\<exists>a \<in> set adapters. min_score p \<le> sw_scan_16 seq a (gap_open p) (gap_extend p) matrix)"
  by (induction adapters) (simp_all add: split_beta)

lemma scan_adapters_snd:
  "snd (scan_adapters seq adapters p matrix) =
     takeWhile (\<lambda>a. sw_scan_16 seq a (gap_open p) (gap_extend p) matrix < min_score p) adapters
     @ take 1 (dropWhile (\<lambda>a. sw_scan_16 seq a (gap_open p) (gap_extend p) matrix < min_score p) adapters)"
  by (induction adapters) (simp_all add: split_beta not_less)

lemma classify_read_eq:
  "classify_read adapters p matrix rec st =
     (if contaminated adapters p matrix rec
      then st\<lparr>processed := processed st + 1, discarded_reads := discarded_reads st @ [rec]\<rparr>
      else st\<lparr>processed := processed st + 1, kept_reads := kept_reads st @ [rec]\<rparr>)"
  by (simp add: classify_read_def contaminated_def Let_def)

text \<open>
  Claim C1. A read is classified contaminated exactly when some adapter of the loaded
  set scores at least \<open>min_score\<close> against the upper-cased read. The scan calls the
  alignment engine on the adapters in load order, up to and including the first one
  that reaches the threshold and on none after it; when no adapter reaches the
  threshold the whole set is scanned and the read is clean. A contaminated read is
  appended to the discarded reads, a clean one to the kept reads.
\<close>

theorem first_hit_classification:
  "fst (scan_adapters seq adapters p matrix) =
     (\<exists>a \<in> set adapters. min_score p \<le> sw_scan_16 seq a (gap_open p) (gap_extend p) matrix)
   \<and> snd (scan_adapters seq adapters p matrix) =
       takeWhile (\<lambda>a. sw_scan_16 seq a (gap_open p) (gap_extend p) matrix < min_score p) adapters
       @ take 1 (dropWhile (\<lambda>a. sw_scan_16 seq a (gap_open p) (gap_extend p) matrix < min_score p) adapters)
   \<and> ((\<forall>a \<in> set adapters. sw_scan_16 seq a (gap_open p) (gap_extend p) matrix < min_score p) \<longrightarrow>
        scan_adapters seq adapters p matrix = (False, adapters))
   \<and> classify_read adapters p matrix rec st =
       (if \<exists>a \<in> set adapters.
             min_score p \<le> sw_scan_16 (upper (rec_seq rec)) a (gap_open p) (gap_extend p) matrix
        then st\<lparr>processed := processed st + 1, discarded_reads := discarded_reads st @ [rec]\<rparr>
        else st\<lparr>processed := processed st + 1, kept_reads := kept_reads st @ [rec]\<rparr>)"
proof -
  let ?low = "\<lambda>a. sw_scan_16 seq a (gap_open p) (gap_extend p) matrix < min_score p"
  have a: "fst (scan_adapters seq adapters p matrix) =
     (\<exists>a \<in> set adapters. min_score p \<le> sw_scan_16 seq a (gap_open p) (gap_extend p) matrix)"
    by (rule scan_adapters_fst)
  have b: "snd (scan_adapters seq adapters p matrix) =
       takeWhile ?low adapters @ take 1 (dropWhile ?low adapters)"
    by (rule scan_adapters_snd)
  have c: "scan_adapters seq adapters p matrix = (False, adapters)"
    if h: "\<forall>a \<in> set adapters. ?low a"
  proof -
    from h have "fst (scan_adapters seq adapters p matrix) = False"
      by (auto simp: a)
    moreover from h have "snd (scan_adapters seq adapters p matrix) = adapters"
      by (simp add: b takeWhile_eq_all_conv [THEN iffD2] dropWhile_eq_Nil_conv [THEN iffD2])
    ultimately show ?thesis by (simp add: prod_eq_iff)
  qed
  have d: "classify_read adapters p matrix rec st =
       (if \<exists>a \<in> set adapters.
             min_score p \<le> sw_scan_16 (upper (rec_seq rec)) a (gap_open p) (gap_extend p) matrix
        then st\<lparr>processed := processed st + 1, discarded_reads := discarded_reads st @ [rec]\<rparr>
        else st\<lparr>processed := processed st + 1, kept_reads := kept_reads st @ [rec]\<rparr>)"
    by (simp only: classify_read_eq contaminated_def scan_adapters_fst)
  from a b c d show ?thesis by blast
qed

lemma score_against_GGGG: "sw_scan_16 ''ACGTACGTTTTT'' ''GGGG'' 5 1 (matrix_create ''ACGT'' 2 (- 1)) = 2"
  by code_simp
lemma score_against_TTTT: "sw_scan_16 ''ACGTACGTTTTT'' ''TTTT'' 5 1 (matrix_create ''ACGT'' 2 (- 1)) = 8"
  by code_simp
lemma score_against_adapter: "sw_scan_16 ''ACGTACGTTTTT'' ''ACGTACGT'' 5 1 (matrix_create ''ACGT'' 2 (- 1)) = 16"
  by code_simp

theorem first_hit_classification_witness:
  "scan_adapters ''ACGTACGTTTTT'' [''GGGG'', ''TTTT'', ''ACGTACGT'']
     \<lparr>min_score = 8, match = 2, mismatch = - 1, gap_open = 5, gap_extend = 1\<rparr>
     (matrix_create ''ACGT'' 2 (- 1)) = (True, [''GGGG'', ''TTTT''])
   \<and> sw_scan_16 ''ACGTACGTTTTT'' ''TTTT'' 5 1 (matrix_create ''ACGT'' 2 (- 1)) = 8
   \<and> sw_scan_16 ''ACGTACGTTTTT'' ''ACGTACGT'' 5 1 (matrix_create ''ACGT'' 2 (- 1)) = 16
   \<and> sw_scan_16 ''ACGTACGTTTTT'' ''GGGG'' 5 1 (matrix_create ''ACGT'' 2 (- 1)) = 2
   \<and> scan_adapters ''ACGTACGTTTTT'' [''GGGG'']
       \<lparr>min_score = 8, match = 2, mismatch = - 1, gap_open = 5, gap_extend = 1\<rparr>
       (matrix_create ''ACGT'' 2 (- 1)) = (False, [''GGGG''])"
proof -
  let ?p = "\<lparr>min_score = 8, match = 2, mismatch = - 1, gap_open = 5, gap_extend = 1\<rparr>"
  let ?m = "matrix_create ''ACGT'' 2 (- 1)"
  have hit: "scan_adapters ''ACGTACGTTTTT'' [''GGGG'', ''TTTT'', ''ACGTACGT''] ?p ?m
               = (True, [''GGGG'', ''TTTT''])"
    using first_hit_classification
      [of "''ACGTACGTTTTT''" "[''GGGG'', ''TTTT'', ''ACGTACGT'']" ?p ?m]
    by (simp add: score_against_GGGG score_against_TTTT score_against_adapter prod_eq_iff)
  have low: "\<forall>a \<in> set [''GGGG'']. sw_scan_16 ''ACGTACGTTTTT'' a 5 1 ?m < 8"
    by (simp add: score_against_GGGG)
  have miss: "scan_adapters ''ACGTACGTTTTT'' [''GGGG''] ?p ?m = (False, [''GGGG''])"
    using first_hit_classification [of "''ACGTACGTTTTT''" "[''GGGG'']" ?p ?m] low
    by simp
  from hit miss show ?thesis by (simp add: score_against_GGGG score_against_TTTT score_against_adapter)
qed


section \<open>The fallback loops as a partition of the reads\<close>

lemma fb_classify_eq:
  "fb_classify adapters seq block st =
     (if any_adapter_in adapters seq
      then st\<lparr>fb_processed := fb_processed st + 1,
              discarded_lines := discarded_lines st @ block,
              discarded_count := discarded_count st + 1\<rparr>
      else st\<lparr>fb_processed := fb_processed st + 1,
              kept_lines := kept_lines st @ block,
              kept_count := kept_count st + 1\<rparr>)"
  by (simp add: fb_classify_def Let_def)

lemma fb_route_Nil: "fb_route adapters [] st = st"
  by (simp add: fb_route_def)

lemma fb_route_Cons:
  "fb_route adapters (e # es) st = fb_route adapters es (fb_classify adapters (fst e) (snd e) st)"
  by (simp add: fb_route_def fb_classify_eq)

lemma fb_route_append:
  "fb_route adapters (xs @ ys) st = fb_route adapters ys (fb_route adapters xs st)"
  by (induction xs arbitrary: st) (simp_all add: fb_route_Nil fb_route_Cons)

lemma fastq_entries_short: "length ls < 4 \<Longrightarrow> fastq_entries ls = []"
  by (induction ls rule: fastq_entries.induct) simp_all

lemma fastq_entries_long:
  "4 \<le> length ls \<Longrightarrow> fastq_entries ls = take 4 ls # fastq_entries (drop 4 ls)"
  by (induction ls rule: fastq_entries.induct) simp_all

lemma fastq_loop_step:
  "i + 3 < length ls \<Longrightarrow>
   fastq_loop adapters ls i st =
     fastq_loop adapters ls (i + 4)
       (fb_classify adapters (upper (strip (ls ! (i + 1)))) (take 4 (drop i ls)) st)"
  by (subst fastq_loop.simps) simp

lemma fastq_loop_skip:
  "i < length ls \<Longrightarrow> \<not> i + 3 < length ls \<Longrightarrow>
   fastq_loop adapters ls i st = fastq_loop adapters ls (i + 4) st"
  by (subst fastq_loop.simps) simp

lemma fastq_loop_done:
  "\<not> i < length ls \<Longrightarrow> fastq_loop adapters ls i st = st"
  by (subst fastq_loop.simps) simp

lemma fastq_loop_route:
  "fastq_loop adapters ls i st =
     fb_route adapters (map (\<lambda>g. (upper (strip (g ! 1)), g)) (fastq_entries (drop i ls))) st"
proof (induction adapters ls i st rule: fastq_loop.induct)
  case (1 adapters ls i st)
  show ?case
  proof (cases "i + 3 < length ls")
    case True
    then have long: "4 \<le> length (drop i ls)" by simp
    have nth: "take 4 (drop i ls) ! 1 = ls ! (i + 1)"
      using True by simp
    have dd: "drop 4 (drop i ls) = drop (i + 4) ls"
      by (simp add: add.commute)
    from True have il: "i < length ls" by simp
    have ih: "fastq_loop adapters ls (i + 4)
                (fb_classify adapters (upper (strip (ls ! (i + 1)))) (take 4 (drop i ls)) st) =
              fb_route adapters
                (map (\<lambda>g. (upper (strip (g ! 1)), g)) (fastq_entries (drop (i + 4) ls)))
                (fb_classify adapters (upper (strip (ls ! (i + 1)))) (take 4 (drop i ls)) st)"
      using "1.IH" [OF il] by (simp only: True if_True)
    have "fastq_entries (drop i ls) = take 4 (drop i ls) # fastq_entries (drop (i + 4) ls)"
      using fastq_entries_long [OF long] by (simp only: dd)
    then show ?thesis
      by (simp only: fastq_loop_step [OF True] ih list.map fb_route_Cons fst_conv snd_conv nth)
  next
    case False
    then have short: "length (drop i ls) < 4" by simp
    have rest: "length (drop (i + 4) ls) < 4" using False by simp
    show ?thesis
    proof (cases "i < length ls")
      case True
      have "fastq_loop adapters ls (i + 4) st = st"
        using "1.IH" [OF True]
        by (simp only: False if_False fastq_entries_short [OF rest] list.map fb_route_Nil)
      then show ?thesis
        by (simp only: fastq_loop_skip [OF True False] fastq_entries_short [OF short]
            list.map fb_route_Nil)
    next
      case False
      then show ?thesis
        by (simp only: fastq_loop_done [OF False] fastq_entries_short [OF short]
            list.map fb_route_Nil)
    qed
  qed
qed

lemma fasta_flush_route:
  "fasta_flush adapters st h s =
     fb_route adapters (map (\<lambda>(h, s). (upper s, [h, s])) (fasta_entry h s)) st"
  by (simp add: fasta_flush_def fasta_entry_def fb_route_Nil fb_route_Cons)

lemma fasta_loop_route:
  "(case fasta_loop adapters ls (st, h, s) of (st', h', s') \<Rightarrow> fasta_flush adapters st' h' s') =
     fb_route adapters (map (\<lambda>(h, s). (upper s, [h, s])) (fasta_entries h s ls)) st"
proof (induction ls arbitrary: st h s)
  case Nil
  show ?case by (simp add: fasta_flush_route)
next
  case (Cons l ls)
  show ?case
  proof (cases "is_header (strip l)")
    case True
    then show ?thesis
      using Cons.IH [of "fasta_flush adapters st h s" "strip l" "[]"]
      by (simp add: fb_route_append fasta_flush_route)
  next
    case False
    then show ?thesis
      using Cons.IH [of st h "s @ strip l"] by simp
  qed
qed

lemma fallback_partition_route:
  "fallback_partition adapters fmt ls =
     fb_route adapters (fallback_entries fmt ls)
       \<lparr>kept_lines = [], discarded_lines = [], kept_count = 0, discarded_count = 0,
        fb_processed = 0\<rparr>"
proof (cases "fmt = ''fastq''")
  case True
  then show ?thesis
    by (simp add: fallback_partition_def fallback_entries_def fastq_loop_route)
next
  case False
  then show ?thesis
    by (simp add: fallback_partition_def fallback_entries_def fasta_loop_route)
qed


section \<open>Partition of the reads\<close>

lemma fold_classify_read:
  "fold (classify_read adapters p matrix) recs st =
     \<lparr>kept_reads = kept_reads st @ filter (\<lambda>r. \<not> contaminated adapters p matrix r) recs,
      discarded_reads = discarded_reads st @ filter (contaminated adapters p matrix) recs,
      processed = processed st + length recs\<rparr>"
  by (induction recs arbitrary: st) (simp_all add: classify_read_eq)

lemma classify_reads_eq:
  "classify_reads adapters p matrix recs =
     \<lparr>kept_reads = filter (\<lambda>r. \<not> contaminated adapters p matrix r) recs,
      discarded_reads = filter (contaminated adapters p matrix) recs,
      processed = length recs\<rparr>"
  by (simp add: classify_reads_def fold_classify_read)

lemma length_filter_split: "length (filter (\<lambda>x. \<not> P x) xs) + length (filter P xs) = length xs"
  by (induction xs) simp_all

lemma web_report_counts:
  "(case filter_reads_web dep ac rc fn p of (k, d, rep) \<Rightarrow>
      reads_kept rep + reads_discarded rep = total_reads rep)"
proof (cases dep)
  case True
  then show ?thesis
    by (simp add: filter_reads_web_def classify_reads_eq Let_def length_filter_split)
next
  case False
  then show ?thesis
    by (simp add: filter_reads_web_def simple_filter_fallback_def Let_def
        fallback_partition_route fb_route_def length_filter_split)
qed

text \<open>
  Claim C2. Every processed read goes to exactly one of the two outputs, each output
  lists its reads in input order, and the kept and discarded counts add up to the number
  of reads processed. In the full classifier the kept reads are the parsed records that
  are not contaminated and the discarded reads those that are, both as sublists of the
  parsed records; in the fallback the kept and discarded lines are the lines of the
  reads without and with an adapter hit, in the order of the reads; in both modes the
  report's kept and discarded counts sum to its total. What the parser does not deliver
  as a read is in none of the three numbers.
\<close>

theorem partition_order_and_counts:
  "kept_reads (classify_reads adapters p matrix recs) =
     filter (\<lambda>r. \<not> contaminated adapters p matrix r) recs
   \<and> discarded_reads (classify_reads adapters p matrix recs) =
       filter (contaminated adapters p matrix) recs
   \<and> length (kept_reads (classify_reads adapters p matrix recs))
       + length (discarded_reads (classify_reads adapters p matrix recs)) = length recs
   \<and> processed (classify_reads adapters p matrix recs) = length recs
   \<and> kept_lines (fallback_partition ads fmt ls) =
       concat (map snd (filter (\<lambda>e. \<not> any_adapter_in ads (fst e)) (fallback_entries fmt ls)))
   \<and> discarded_lines (fallback_partition ads fmt ls) =
       concat (map snd (filter (\<lambda>e. any_adapter_in ads (fst e)) (fallback_entries fmt ls)))
   \<and> kept_count (fallback_partition ads fmt ls) =
       length (filter (\<lambda>e. \<not> any_adapter_in ads (fst e)) (fallback_entries fmt ls))
   \<and> discarded_count (fallback_partition ads fmt ls) =
       length (filter (\<lambda>e. any_adapter_in ads (fst e)) (fallback_entries fmt ls))
   \<and> kept_count (fallback_partition ads fmt ls) + discarded_count (fallback_partition ads fmt ls)
       = fb_processed (fallback_partition ads fmt ls)
   \<and> fb_processed (fallback_partition ads fmt ls) = length (fallback_entries fmt ls)
   \<and> (case filter_reads_web dep ac rc fn p of (k, d, rep) \<Rightarrow>
        reads_kept rep + reads_discarded rep = total_reads rep)"
proof -
  have web: "classify_reads adapters p matrix recs =
     \<lparr>kept_reads = filter (\<lambda>r. \<not> contaminated adapters p matrix r) recs,
      discarded_reads = filter (contaminated adapters p matrix) recs,
      processed = length recs\<rparr>"
    by (rule classify_reads_eq)
  have fb: "fallback_partition ads fmt ls =
     fb_route ads (fallback_entries fmt ls)
       \<lparr>kept_lines = [], discarded_lines = [], kept_count = 0, discarded_count = 0,
        fb_processed = 0\<rparr>"
    by (rule fallback_partition_route)
  have 1: "kept_reads (classify_reads adapters p matrix recs) =
     filter (\<lambda>r. \<not> contaminated adapters p matrix r) recs"
    by (simp add: web)
  have 2: "discarded_reads (classify_reads adapters p matrix recs) =
       filter (contaminated adapters p matrix) recs"
    by (simp add: web)
  have 3: "length (kept_reads (classify_reads adapters p matrix recs))
       + length (discarded_reads (classify_reads adapters p matrix recs)) = length recs"
    by (simp add: web length_filter_split)
  have 4: "processed (classify_reads adapters p matrix recs) = length recs"
    by (simp add: web)
  have 5: "kept_lines (fallback_partition ads fmt ls) =
       concat (map snd (filter (\<lambda>e. \<not> any_adapter_in ads (fst e)) (fallback_entries fmt ls)))"
    by (simp add: fb fb_route_def)
  have 6: "discarded_lines (fallback_partition ads fmt ls) =
       concat (map snd (filter (\<lambda>e. any_adapter_in ads (fst e)) (fallback_entries fmt ls)))"
    by (simp add: fb fb_route_def)
  have 7: "kept_count (fallback_partition ads fmt ls) =
       length (filter (\<lambda>e. \<not> any_adapter_in ads (fst e)) (fallback_entries fmt ls))"
    by (simp add: fb fb_route_def)
  have 8: "discarded_count (fallback_partition ads fmt ls) =
       length (filter (\<lambda>e. any_adapter_in ads (fst e)) (fallback_entries fmt ls))"
    by (simp add: fb fb_route_def)
  have 9: "kept_count (fallback_partition ads fmt ls) + discarded_count (fallback_partition ads fmt ls)
       = fb_processed (fallback_partition ads fmt ls)"
    by (simp add: fb fb_route_def length_filter_split)
  have 10: "fb_processed (fallback_partition ads fmt ls) = length (fallback_entries fmt ls)"
    by (simp add: fb fb_route_def)
  from 1 2 3 4 5 6 7 8 9 10 web_report_counts [of dep ac rc fn p] show ?thesis
    by (intro conjI)
qed

lemma example_parse:
  "SeqIO_parse ''>r1\<newline>ACGTACGTTTTT\<newline>>r2\<newline>GGGGGGGGGG'' ''fasta'' =
     [\<lparr>rec_id = ''r1'', rec_description = [], rec_seq = ''ACGTACGTTTTT'', rec_quality = None\<rparr>,
      \<lparr>rec_id = ''r2'', rec_description = [], rec_seq = ''GGGGGGGGGG'', rec_quality = None\<rparr>]"
  by code_simp

lemma example_r1_contaminated:
  "contaminated [''ACGTACGT'', ''ACGTACGT'']
     \<lparr>min_score = 10, match = 2, mismatch = - 1, gap_open = 5, gap_extend = 1\<rparr>
     (matrix_create ''ACGT'' 2 (- 1))
     \<lparr>rec_id = ''r1'', rec_description = [], rec_seq = ''ACGTACGTTTTT'', rec_quality = None\<rparr>"
  by code_simp

lemma example_r2_clean:
  "\<not> contaminated [''ACGTACGT'', ''ACGTACGT'']
     \<lparr>min_score = 10, match = 2, mismatch = - 1, gap_open = 5, gap_extend = 1\<rparr>
     (matrix_create ''ACGT'' 2 (- 1))
     \<lparr>rec_id = ''r2'', rec_description = [], rec_seq = ''GGGGGGGGGG'', rec_quality = None\<rparr>"
  by code_simp

lemma example_run_10:
  "filter_reads_web True ''>A1\<newline>ACGTACGT'' ''>r1\<newline>ACGTACGTTTTT\<newline>>r2\<newline>GGGGGGGGGG''
     ''reads.fasta'' \<lparr>min_score = 10, match = 2, mismatch = - 1, gap_open = 5, gap_extend = 1\<rparr> =
   (''>r2\<newline>GGGGGGGGGG\<newline>'', ''>r1\<newline>ACGTACGTTTTT\<newline>'',
    \<lparr>tool = ''Parasail SIMD Smith-Waterman Filter'', total_reads = 2, adapters_loaded = 1,
     reads_kept = 1, reads_discarded = 1\<rparr>)"
  by code_simp

lemma example_run_20:
  "filter_reads_web True ''>A1\<newline>ACGTACGT'' ''>r1\<newline>ACGTACGTTTTT\<newline>>r2\<newline>GGGGGGGGGG''
     ''reads.fasta'' \<lparr>min_score = 20, match = 2, mismatch = - 1, gap_open = 5, gap_extend = 1\<rparr> =
   (''>r1\<newline>ACGTACGTTTTT\<newline>>r2\<newline>GGGGGGGGGG\<newline>'', [],
    \<lparr>tool = ''Parasail SIMD Smith-Waterman Filter'', total_reads = 2, adapters_loaded = 1,
     reads_kept = 2, reads_discarded = 0\<rparr>)"
  by code_simp

lemma example_fastq_entries:
  "fallback_entries ''fastq''
     [''@r1'', ''ggAAACtt'', ''+'', ''IIIIIIII'', ''@r2'', ''GTTT'', ''+'', ''IIII'', ''@r3'', ''AAAC''] =
   [(''GGAAACTT'', [''@r1'', ''ggAAACtt'', ''+'', ''IIIIIIII'']),
    (''GTTT'', [''@r2'', ''GTTT'', ''+'', ''IIII''])]"
  by code_simp

lemma example_hit: "any_adapter_in [''AAAC''] ''GGAAACTT''"
  by code_simp

lemma example_miss: "\<not> any_adapter_in [''AAAC''] ''GTTT''"
  by code_simp

theorem partition_order_and_counts_witness:
  "kept_reads (classify_reads [''ACGTACGT'', ''ACGTACGT'']
       \<lparr>min_score = 10, match = 2, mismatch = - 1, gap_open = 5, gap_extend = 1\<rparr>
       (matrix_create ''ACGT'' 2 (- 1))
       [\<lparr>rec_id = ''r1'', rec_description = [], rec_seq = ''ACGTACGTTTTT'', rec_quality = None\<rparr>,
        \<lparr>rec_id = ''r2'', rec_description = [], rec_seq = ''GGGGGGGGGG'', rec_quality = None\<rparr>])
     = [\<lparr>rec_id = ''r2'', rec_description = [], rec_seq = ''GGGGGGGGGG'', rec_quality = None\<rparr>]
   \<and> discarded_reads (classify_reads [''ACGTACGT'', ''ACGTACGT'']
       \<lparr>min_score = 10, match = 2, mismatch = - 1, gap_open = 5, gap_extend = 1\<rparr>
       (matrix_create ''ACGT'' 2 (- 1))
       [\<lparr>rec_id = ''r1'', rec_description = [], rec_seq = ''ACGTACGTTTTT'', rec_quality = None\<rparr>,
        \<lparr>rec_id = ''r2'', rec_description = [], rec_seq = ''GGGGGGGGGG'', rec_quality = None\<rparr>])
     = [\<lparr>rec_id = ''r1'', rec_description = [], rec_seq = ''ACGTACGTTTTT'', rec_quality = None\<rparr>]
   \<and> kept_lines (fallback_partition [''AAAC''] ''fastq''
        [''@r1'', ''ggAAACtt'', ''+'', ''IIIIIIII'', ''@r2'', ''GTTT'', ''+'', ''IIII'', ''@r3'', ''AAAC''])
     = [''@r2'', ''GTTT'', ''+'', ''IIII'']
   \<and> discarded_lines (fallback_partition [''AAAC''] ''fastq''
        [''@r1'', ''ggAAACtt'', ''+'', ''IIIIIIII'', ''@r2'', ''GTTT'', ''+'', ''IIII'', ''@r3'', ''AAAC''])
     = [''@r1'', ''ggAAACtt'', ''+'', ''IIIIIIII'']
   \<and> kept_count (fallback_partition [''AAAC''] ''fastq''
        [''@r1'', ''ggAAACtt'', ''+'', ''IIIIIIII'', ''@r2'', ''GTTT'', ''+'', ''IIII'', ''@r3'', ''AAAC'']) = 1
   \<and> discarded_count (fallback_partition [''AAAC''] ''fastq''
        [''@r1'', ''ggAAACtt'', ''+'', ''IIIIIIII'', ''@r2'', ''GTTT'', ''+'', ''IIII'', ''@r3'', ''AAAC'']) = 1
   \<and> fb_processed (fallback_partition [''AAAC''] ''fastq''
        [''@r1'', ''ggAAACtt'', ''+'', ''IIIIIIII'', ''@r2'', ''GTTT'', ''+'', ''IIII'', ''@r3'', ''AAAC'']) = 2"
  using partition_order_and_counts
    [where adapters = "[''ACGTACGT'', ''ACGTACGT'']"
      and p = "\<lparr>min_score = 10, match = 2, mismatch = - 1, gap_open = 5, gap_extend = 1\<rparr>"
      and matrix = "matrix_create ''ACGT'' 2 (- 1)"
      and recs = "[\<lparr>rec_id = ''r1'', rec_description = [], rec_seq = ''ACGTACGTTTTT'', rec_quality = None\<rparr>,
        \<lparr>rec_id = ''r2'', rec_description = [], rec_seq = ''GGGGGGGGGG'', rec_quality = None\<rparr>]"
      and ads = "[''AAAC'']" and fmt = "''fastq''"
      and ls = "[''@r1'', ''ggAAACtt'', ''+'', ''IIIIIIII'', ''@r2'', ''GTTT'', ''+'', ''IIII'', ''@r3'', ''AAAC'']"
      and dep = True and ac = "[]" and rc = "[]" and fn = "[]"]
  by (simp add: example_r1_contaminated example_r2_clean example_fastq_entries
      example_hit example_miss)

section \<open>Monotonicity in the threshold\<close>

lemma length_filter_mono:
  "(\<And>x. P x \<Longrightarrow> Q x) \<Longrightarrow> length (filter P xs) \<le> length (filter Q xs)"
  by (induction xs) auto

lemma contaminated_antimono:
  "t1 \<le> t2 \<Longrightarrow> contaminated adapters (p\<lparr>min_score := t2\<rparr>) matrix r \<Longrightarrow>
   contaminated adapters (p\<lparr>min_score := t1\<rparr>) matrix r"
  by (simp add: contaminated_def scan_adapters_fst) (meson order_trans)

lemma fallback_ignores_params:
  "simple_filter_fallback ac rc fn p = simple_filter_fallback ac rc fn p'"
  by (simp add: simple_filter_fallback_def)

text \<open>
  Claim C6. With the adapter panel, the reads and the other scoring parameters fixed,
  the number of discarded reads at threshold \<open>t2\<close> is at most the number at any
  threshold \<open>t1 \<le> t2\<close>.
\<close>

theorem raising_threshold_never_discards_more:
  assumes "t1 \<le> t2"
  shows "reads_discarded (snd (snd (filter_reads_web dep ac rc fn (p\<lparr>min_score := t2\<rparr>))))
         \<le> reads_discarded (snd (snd (filter_reads_web dep ac rc fn (p\<lparr>min_score := t1\<rparr>))))"
proof (cases dep)
  case True
  let ?ads = "load_adapters ac"
  let ?m = "matrix_create ''ACGT'' (match p) (mismatch p)"
  let ?recs = "SeqIO_parse rc (file_format_from_name fn)"
  have "length (filter (contaminated ?ads (p\<lparr>min_score := t2\<rparr>) ?m) ?recs)
        \<le> length (filter (contaminated ?ads (p\<lparr>min_score := t1\<rparr>) ?m) ?recs)"
    by (rule length_filter_mono) (rule contaminated_antimono [OF assms])
  with True show ?thesis
    by (simp add: filter_reads_web_def classify_reads_eq Let_def)
next
  case False
  then show ?thesis
    by (simp add: filter_reads_web_def
        fallback_ignores_params [of ac rc fn "p\<lparr>min_score := t2\<rparr>" "p\<lparr>min_score := t1\<rparr>"])
qed

theorem raising_threshold_never_discards_more_witness:
  "(10::int) \<le> 20
   \<and> reads_discarded (snd (snd (filter_reads_web True ''>A1\<newline>ACGTACGT''
         ''>r1\<newline>ACGTACGTTTTT\<newline>>r2\<newline>GGGGGGGGGG'' ''reads.fasta''
         \<lparr>min_score = 20, match = 2, mismatch = - 1, gap_open = 5, gap_extend = 1\<rparr>))) = 0
   \<and> reads_discarded (snd (snd (filter_reads_web True ''>A1\<newline>ACGTACGT''
         ''>r1\<newline>ACGTACGTTTTT\<newline>>r2\<newline>GGGGGGGGGG'' ''reads.fasta''
         \<lparr>min_score = 10, match = 2, mismatch = - 1, gap_open = 5, gap_extend = 1\<rparr>))) = 1"
proof -
  have h: "(10::int) \<le> 20" by simp
  show ?thesis
    using h raising_threshold_never_discards_more
      [OF h, of True "''>A1\<newline>ACGTACGT''" "''>r1\<newline>ACGTACGTTTTT\<newline>>r2\<newline>GGGGGGGGGG''"
        "''reads.fasta''"
        "\<lparr>min_score = 10, match = 2, mismatch = - 1, gap_open = 5, gap_extend = 1\<rparr>"]
    by (simp add: example_run_10 example_run_20)
qed


section \<open>Empty adapter set\<close>

lemma not_contaminated_Nil: "\<not> contaminated [] p matrix r"
  by (simp add: contaminated_def)

lemma not_any_adapter_in_Nil: "\<not> any_adapter_in [] seq"
  by (simp add: any_adapter_in_def)

lemma SeqIO_write_Nil: "SeqIO_write [] fmt = []"
  by (simp add: SeqIO_write_def)

text \<open>
  Claim C7. With an empty adapter set no read is contaminated: in both modes every read
  is kept in input order, nothing is discarded and the discarded count is 0; a run
  whose adapter text yields no adapter returns this result like any other run.
\<close>

theorem empty_adapter_set_keeps_every_read:
  "classify_reads [] p matrix recs =
     \<lparr>kept_reads = recs, discarded_reads = [], processed = length recs\<rparr>
   \<and> fallback_partition [] fmt ls =
       \<lparr>kept_lines = concat (map snd (fallback_entries fmt ls)), discarded_lines = [],
        kept_count = length (fallback_entries fmt ls), discarded_count = 0,
        fb_processed = length (fallback_entries fmt ls)\<rparr>
   \<and> (load_adapters ac = [] \<longrightarrow>
        filter_reads_web True ac rc fn p =
          (SeqIO_write (SeqIO_parse rc (file_format_from_name fn)) (file_format_from_name fn), [],
           \<lparr>tool = ''Parasail SIMD Smith-Waterman Filter'',
            total_reads = length (SeqIO_parse rc (file_format_from_name fn)),
            adapters_loaded = 0,
            reads_kept = length (SeqIO_parse rc (file_format_from_name fn)),
            reads_discarded = 0\<rparr>))
   \<and> (fallback_adapters ac = [] \<longrightarrow>
        filter_reads_web False ac rc fn p =
          (lines_content
             (concat (map snd (fallback_entries (file_format_from_name fn) (split_nl (strip rc))))),
           [],
           \<lparr>tool = ''Simple substring-based filter'',
            total_reads = length (fallback_entries (file_format_from_name fn) (split_nl (strip rc))),
            adapters_loaded = 0,
            reads_kept = length (fallback_entries (file_format_from_name fn) (split_nl (strip rc))),
            reads_discarded = 0\<rparr>))"
proof -
  have web: "classify_reads [] p matrix recs =
     \<lparr>kept_reads = recs, discarded_reads = [], processed = length recs\<rparr>"
    for matrix and recs
    by (simp add: classify_reads_eq not_contaminated_Nil)
  have fb: "fallback_partition [] fmt ls =
       \<lparr>kept_lines = concat (map snd (fallback_entries fmt ls)), discarded_lines = [],
        kept_count = length (fallback_entries fmt ls), discarded_count = 0,
        fb_processed = length (fallback_entries fmt ls)\<rparr>" for fmt ls
    by (simp add: fallback_partition_route fb_route_def not_any_adapter_in_Nil)
  have full: "load_adapters ac = [] \<longrightarrow>
        filter_reads_web True ac rc fn p =
          (SeqIO_write (SeqIO_parse rc (file_format_from_name fn)) (file_format_from_name fn), [],
           \<lparr>tool = ''Parasail SIMD Smith-Waterman Filter'',
            total_reads = length (SeqIO_parse rc (file_format_from_name fn)),
            adapters_loaded = 0,
            reads_kept = length (SeqIO_parse rc (file_format_from_name fn)),
            reads_discarded = 0\<rparr>)"
    by (simp add: filter_reads_web_def web SeqIO_write_Nil Let_def)
  have simple: "fallback_adapters ac = [] \<longrightarrow>
        filter_reads_web False ac rc fn p =
          (lines_content
             (concat (map snd (fallback_entries (file_format_from_name fn) (split_nl (strip rc))))),
           [],
           \<lparr>tool = ''Simple substring-based filter'',
            total_reads = length (fallback_entries (file_format_from_name fn) (split_nl (strip rc))),
            adapters_loaded = 0,
            reads_kept = length (fallback_entries (file_format_from_name fn) (split_nl (strip rc))),
            reads_discarded = 0\<rparr>)"
    by (simp add: filter_reads_web_def simple_filter_fallback_def fb lines_content_def Let_def)
  from web [of matrix recs] fb [of fmt ls] full simple show ?thesis by (intro conjI)
qed

lemma empty_panel_loaders: "load_adapters ''>A1'' = [] \<and> fallback_adapters ''>A1'' = []"
  by code_simp

lemma example_fasta_entries:
  "fallback_entries (file_format_from_name ''reads.fasta'')
     (split_nl (strip ''>r1\<newline>ACGTACGTTTTT\<newline>>r2\<newline>GGGGGGGGGG'')) =
   [(''ACGTACGTTTTT'', [''>r1'', ''ACGTACGTTTTT'']), (''GGGGGGGGGG'', [''>r2'', ''GGGGGGGGGG''])]"
  by code_simp

lemma example_fasta_write:
  "SeqIO_write (SeqIO_parse ''>r1\<newline>ACGTACGTTTTT\<newline>>r2\<newline>GGGGGGGGGG''
       (file_format_from_name ''reads.fasta'')) (file_format_from_name ''reads.fasta'') =
   ''>r1\<newline>ACGTACGTTTTT\<newline>>r2\<newline>GGGGGGGGGG\<newline>''
   \<and> length (SeqIO_parse ''>r1\<newline>ACGTACGTTTTT\<newline>>r2\<newline>GGGGGGGGGG''
       (file_format_from_name ''reads.fasta'')) = 2"
  by code_simp

theorem empty_adapter_set_keeps_every_read_witness:
  "load_adapters ''>A1'' = [] \<and> fallback_adapters ''>A1'' = []
   \<and> filter_reads_web True ''>A1'' ''>r1\<newline>ACGTACGTTTTT\<newline>>r2\<newline>GGGGGGGGGG'' ''reads.fasta''
        \<lparr>min_score = 10, match = 2, mismatch = - 1, gap_open = 5, gap_extend = 1\<rparr> =
      (''>r1\<newline>ACGTACGTTTTT\<newline>>r2\<newline>GGGGGGGGGG\<newline>'', [],
       \<lparr>tool = ''Parasail SIMD Smith-Waterman Filter'', total_reads = 2, adapters_loaded = 0,
        reads_kept = 2, reads_discarded = 0\<rparr>)
   \<and> filter_reads_web False ''>A1'' ''>r1\<newline>ACGTACGTTTTT\<newline>>r2\<newline>GGGGGGGGGG'' ''reads.fasta''
        \<lparr>min_score = 10, match = 2, mismatch = - 1, gap_open = 5, gap_extend = 1\<rparr> =
      (''>r1\<newline>ACGTACGTTTTT\<newline>>r2\<newline>GGGGGGGGGG\<newline>'', [],
       \<lparr>tool = ''Simple substring-based filter'', total_reads = 2, adapters_loaded = 0,
        reads_kept = 2, reads_discarded = 0\<rparr>)"
  using empty_adapter_set_keeps_every_read
    [where ac = "''>A1''" and rc = "''>r1\<newline>ACGTACGTTTTT\<newline>>r2\<newline>GGGGGGGGGG''"
      and fn = "''reads.fasta''"
      and p = "\<lparr>min_score = 10, match = 2, mismatch = - 1, gap_open = 5, gap_extend = 1\<rparr>"
      and matrix = "matrix_create ''ACGT'' 2 (- 1)" and recs = "[]" and fmt = "[]" and ls = "[]"]
    empty_panel_loaders
  by (simp add: example_fasta_entries example_fasta_write lines_content_def)


section \<open>Truncated FASTQ input\<close>

lemma fastq_entries_take:
  "fastq_entries (take (4 * (length ls div 4)) ls) = fastq_entries ls"
proof (induction ls rule: fastq_entries.induct)
  case (1 a b c d rest)
  have "4 * (length (a # b # c # d # rest) div 4) = Suc (Suc (Suc (Suc (4 * (length rest div 4)))))"
    by simp presburger
  with 1 show ?case by (simp del: mult_Suc_right)
qed simp_all

lemma length_fastq_entries: "length (fastq_entries ls) = length ls div 4"
  by (induction ls rule: fastq_entries.induct) simp_all

lemma fastq_entries_groups: "g \<in> set (fastq_entries ls) \<Longrightarrow> length g = 4"
  by (induction ls rule: fastq_entries.induct) auto

lemma fastq_fallback_entries_take:
  "fallback_entries ''fastq'' (take (4 * (length ls div 4)) ls) = fallback_entries ''fastq'' ls"
  by (simp add: fallback_entries_def fastq_entries_take)

lemma length_fastq_fallback_entries:
  "length (fallback_entries ''fastq'' ls) = length ls div 4"
  by (simp add: fallback_entries_def length_fastq_entries)

lemma length_concat_groups:
  "\<forall>e \<in> set es. length (snd e) = 4 \<Longrightarrow> length (concat (map snd es)) = 4 * length es"
  by (induction es) simp_all

lemma fastq_fallback_entries_groups:
  "e \<in> set (fallback_entries ''fastq'' ls) \<Longrightarrow> length (snd e) = 4"
  by (auto simp: fallback_entries_def fastq_entries_groups)

lemma length_fastq_lines:
  "length (concat (map snd (filter P (fallback_entries ''fastq'' ls)))) =
     4 * length (filter P (fallback_entries ''fastq'' ls))"
  by (rule length_concat_groups) (auto dest: fastq_fallback_entries_groups)

lemma SeqIO_parse_fastq:
  "SeqIO_parse rc ''fastq'' = map fastq_record (fastq_entries (split_nl (strip rc)))"
  by (simp add: SeqIO_parse_def)

text \<open>
  Claim C8. When the number of lines of a FASTQ read text (the lines of the stripped
  text, which is what is cut into groups of four) is not a multiple of 4, the incomplete
  last group is dropped without failing, in both modes. In the fallback the result is
  that of the text without those last lines, which are in neither output. In the full
  classifier, whose parser is the record codec of spec 4.2, the records parsed are those
  of the complete groups. In either mode the total, kept and discarded counts of the
  report cover the complete groups only.
\<close>

theorem fastq_truncated_group_dropped:
  assumes "file_format_from_name fn = ''fastq''"
    and "length (split_nl (strip rc)) mod 4 \<noteq> 0"
  shows "fallback_partition ads ''fastq'' (split_nl (strip rc)) =
           fallback_partition ads ''fastq''
             (take (4 * (length (split_nl (strip rc)) div 4)) (split_nl (strip rc)))
         \<and> fb_processed (fallback_partition ads ''fastq'' (split_nl (strip rc))) =
             length (split_nl (strip rc)) div 4
         \<and> kept_count (fallback_partition ads ''fastq'' (split_nl (strip rc)))
             + discarded_count (fallback_partition ads ''fastq'' (split_nl (strip rc))) =
             length (split_nl (strip rc)) div 4
         \<and> length (kept_lines (fallback_partition ads ''fastq'' (split_nl (strip rc))))
             + length (discarded_lines (fallback_partition ads ''fastq'' (split_nl (strip rc)))) =
             4 * (length (split_nl (strip rc)) div 4)
         \<and> 4 * (length (split_nl (strip rc)) div 4) < length (split_nl (strip rc))
         \<and> total_reads (snd (snd (simple_filter_fallback ac rc fn p))) =
             length (split_nl (strip rc)) div 4
         \<and> reads_kept (snd (snd (simple_filter_fallback ac rc fn p)))
             + reads_discarded (snd (snd (simple_filter_fallback ac rc fn p))) =
             length (split_nl (strip rc)) div 4
         \<and> SeqIO_parse rc (file_format_from_name fn) =
             map fastq_record
               (fastq_entries (take (4 * (length (split_nl (strip rc)) div 4)) (split_nl (strip rc))))
         \<and> length (SeqIO_parse rc (file_format_from_name fn)) = length (split_nl (strip rc)) div 4
         \<and> processed (classify_reads adapters p matrix (SeqIO_parse rc (file_format_from_name fn))) =
             length (split_nl (strip rc)) div 4
         \<and> length (kept_reads
                (classify_reads adapters p matrix (SeqIO_parse rc (file_format_from_name fn))))
             + length (discarded_reads
                (classify_reads adapters p matrix (SeqIO_parse rc (file_format_from_name fn)))) =
             length (split_nl (strip rc)) div 4
         \<and> total_reads (snd (snd (filter_reads_web dep ac rc fn p))) =
             length (split_nl (strip rc)) div 4
         \<and> reads_kept (snd (snd (filter_reads_web dep ac rc fn p)))
             + reads_discarded (snd (snd (filter_reads_web dep ac rc fn p))) =
             length (split_nl (strip rc)) div 4"
proof -
  let ?ls = "split_nl (strip rc)"
  let ?recs = "SeqIO_parse rc (file_format_from_name fn)"
  have 1: "fallback_partition ads ''fastq'' ?ls =
           fallback_partition ads ''fastq'' (take (4 * (length ?ls div 4)) ?ls)"
    by (simp only: fallback_partition_route fastq_fallback_entries_take)
  have 2: "fb_processed (fallback_partition ads ''fastq'' ?ls) = length ?ls div 4" for ads
    by (simp add: fallback_partition_route fb_route_def length_fastq_fallback_entries)
  have 3: "kept_count (fallback_partition ads ''fastq'' ?ls)
             + discarded_count (fallback_partition ads ''fastq'' ?ls) = length ?ls div 4" for ads
    by (simp add: fallback_partition_route fb_route_def length_filter_split
        length_fastq_fallback_entries)
  have "length (kept_lines (fallback_partition ads ''fastq'' ?ls))
             + length (discarded_lines (fallback_partition ads ''fastq'' ?ls)) =
        4 * (length (filter (\<lambda>e. \<not> any_adapter_in ads (fst e)) (fallback_entries ''fastq'' ?ls))
             + length (filter (\<lambda>e. any_adapter_in ads (fst e)) (fallback_entries ''fastq'' ?ls)))"
    by (simp add: fallback_partition_route fb_route_def length_fastq_lines)
  then have 4: "length (kept_lines (fallback_partition ads ''fastq'' ?ls))
             + length (discarded_lines (fallback_partition ads ''fastq'' ?ls)) =
             4 * (length ?ls div 4)"
    by (simp only: length_filter_split length_fastq_fallback_entries)
  have 5: "4 * (length ?ls div 4) < length ?ls"
    using assms(2) by presburger
  have 6: "total_reads (snd (snd (simple_filter_fallback ac rc fn p))) = length ?ls div 4"
    by (simp add: simple_filter_fallback_def Let_def assms(1) 2)
  have 7: "reads_kept (snd (snd (simple_filter_fallback ac rc fn p)))
             + reads_discarded (snd (snd (simple_filter_fallback ac rc fn p))) =
             length ?ls div 4"
    by (simp add: simple_filter_fallback_def Let_def assms(1) 3)
  have 8: "?recs = map fastq_record (fastq_entries (take (4 * (length ?ls div 4)) ?ls))"
    by (simp only: assms(1) SeqIO_parse_fastq fastq_entries_take)
  have 9: "length ?recs = length ?ls div 4"
    by (simp add: assms(1) SeqIO_parse_fastq length_fastq_entries)
  have 10: "processed (classify_reads adapters p matrix ?recs) = length ?ls div 4"
    for adapters matrix
    by (simp add: classify_reads_eq 9)
  have 11: "length (kept_reads (classify_reads adapters p matrix ?recs))
             + length (discarded_reads (classify_reads adapters p matrix ?recs)) =
             length ?ls div 4"
    for adapters matrix
    by (simp add: classify_reads_eq length_filter_split 9)
  have 12: "total_reads (snd (snd (filter_reads_web dep ac rc fn p))) = length ?ls div 4"
  proof (cases dep)
    case True
    then show ?thesis by (simp add: filter_reads_web_def Let_def 9)
  next
    case False
    then show ?thesis by (simp add: filter_reads_web_def 6)
  qed
  have 13: "reads_kept (snd (snd (filter_reads_web dep ac rc fn p)))
             + reads_discarded (snd (snd (filter_reads_web dep ac rc fn p))) =
             length ?ls div 4"
  proof (cases dep)
    case True
    then show ?thesis by (simp add: filter_reads_web_def Let_def 11)
  next
    case False
    then show ?thesis by (simp add: filter_reads_web_def 7)
  qed
  from 1 2 [of ads] 3 [of ads] 4 5 6 7 8 9 10 [of adapters matrix] 11 [of adapters matrix] 12 13
  show ?thesis by (intro conjI)
qed

lemma example_truncated_lines:
  "split_nl (strip ''@r1\<newline>ggAAACtt\<newline>+\<newline>IIIIIIII\<newline>@r2\<newline>GTTT\<newline>+\<newline>IIII\<newline>@r3\<newline>AAAC\<newline>'') =
     [''@r1'', ''ggAAACtt'', ''+'', ''IIIIIIII'', ''@r2'', ''GTTT'', ''+'', ''IIII'', ''@r3'', ''AAAC'']"
  by code_simp

lemma example_truncated_full_run:
  "filter_reads_web True ''>A1\<newline>AAAC''
     ''@r1\<newline>ggAAACtt\<newline>+\<newline>IIIIIIII\<newline>@r2\<newline>GTTT\<newline>+\<newline>IIII\<newline>@r3\<newline>AAAC\<newline>'' ''reads.fq''
     \<lparr>min_score = 10, match = 2, mismatch = - 1, gap_open = 5, gap_extend = 1\<rparr> =
   (''@r1\<newline>ggAAACtt\<newline>+\<newline>IIIIIIII\<newline>@r2\<newline>GTTT\<newline>+\<newline>IIII\<newline>'', [],
    \<lparr>tool = ''Parasail SIMD Smith-Waterman Filter'', total_reads = 2, adapters_loaded = 1,
     reads_kept = 2, reads_discarded = 0\<rparr>)"
  by code_simp

lemma example_truncated_run:
  "simple_filter_fallback ''>A1\<newline>AAAC''
     ''@r1\<newline>ggAAACtt\<newline>+\<newline>IIIIIIII\<newline>@r2\<newline>GTTT\<newline>+\<newline>IIII\<newline>@r3\<newline>AAAC\<newline>'' ''reads.fq''
     \<lparr>min_score = 10, match = 2, mismatch = - 1, gap_open = 5, gap_extend = 1\<rparr> =
   (''@r2\<newline>GTTT\<newline>+\<newline>IIII\<newline>'', ''@r1\<newline>ggAAACtt\<newline>+\<newline>IIIIIIII\<newline>'',
    \<lparr>tool = ''Simple substring-based filter'', total_reads = 2, adapters_loaded = 1,
     reads_kept = 1, reads_discarded = 1\<rparr>)"
  by code_simp

theorem fastq_truncated_group_dropped_witness:
  "file_format_from_name ''reads.fq'' = ''fastq''
   \<and> length (split_nl (strip ''@r1\<newline>ggAAACtt\<newline>+\<newline>IIIIIIII\<newline>@r2\<newline>GTTT\<newline>+\<newline>IIII\<newline>@r3\<newline>AAAC\<newline>'')) = 10
   \<and> (10::nat) mod 4 \<noteq> 0
   \<and> simple_filter_fallback ''>A1\<newline>AAAC''
        ''@r1\<newline>ggAAACtt\<newline>+\<newline>IIIIIIII\<newline>@r2\<newline>GTTT\<newline>+\<newline>IIII\<newline>@r3\<newline>AAAC\<newline>'' ''reads.fq''
        \<lparr>min_score = 10, match = 2, mismatch = - 1, gap_open = 5, gap_extend = 1\<rparr> =
      (''@r2\<newline>GTTT\<newline>+\<newline>IIII\<newline>'', ''@r1\<newline>ggAAACtt\<newline>+\<newline>IIIIIIII\<newline>'',
       \<lparr>tool = ''Simple substring-based filter'', total_reads = 2, adapters_loaded = 1,
        reads_kept = 1, reads_discarded = 1\<rparr>)
   \<and> filter_reads_web True ''>A1\<newline>AAAC''
        ''@r1\<newline>ggAAACtt\<newline>+\<newline>IIIIIIII\<newline>@r2\<newline>GTTT\<newline>+\<newline>IIII\<newline>@r3\<newline>AAAC\<newline>'' ''reads.fq''
        \<lparr>min_score = 10, match = 2, mismatch = - 1, gap_open = 5, gap_extend = 1\<rparr> =
      (''@r1\<newline>ggAAACtt\<newline>+\<newline>IIIIIIII\<newline>@r2\<newline>GTTT\<newline>+\<newline>IIII\<newline>'', [],
       \<lparr>tool = ''Parasail SIMD Smith-Waterman Filter'', total_reads = 2, adapters_loaded = 1,
        reads_kept = 2, reads_discarded = 0\<rparr>)"
proof -
  have f: "file_format_from_name ''reads.fq'' = ''fastq''"
    by code_simp
  have n: "length (split_nl (strip ''@r1\<newline>ggAAACtt\<newline>+\<newline>IIIIIIII\<newline>@r2\<newline>GTTT\<newline>+\<newline>IIII\<newline>@r3\<newline>AAAC\<newline>'')) mod 4 \<noteq> 0"
    by (simp add: example_truncated_lines)
  show ?thesis
    using fastq_truncated_group_dropped [OF f n, where ads = "[''AAAC'']"
        and ac = "''>A1\<newline>AAAC''"
        and p = "\<lparr>min_score = 10, match = 2, mismatch = - 1, gap_open = 5, gap_extend = 1\<rparr>"
        and adapters = "[''AAAC'', ''GTTT'']" and matrix = "matrix_create ''ACGT'' 2 (- 1)"
        and dep = True]
    by (simp add: f example_truncated_lines example_truncated_run example_truncated_full_run)
qed


section \<open>The example run of the spec\<close>

lemma example_adapters: "load_adapters ''>A1\<newline>ACGTACGT'' = [''ACGTACGT'', ''ACGTACGT'']"
  by code_simp

lemma example_format: "file_format_from_name ''reads.fasta'' = ''fasta''"
  by code_simp

lemma example_score_r1:
  "sw_scan_16 (upper ''ACGTACGTTTTT'') ''ACGTACGT'' 5 1 (matrix_create ''ACGT'' 2 (- 1)) = 16"
  by code_simp

lemma example_score_r2:
  "sw_scan_16 (upper ''GGGGGGGGGG'') ''ACGTACGT'' 5 1 (matrix_create ''ACGT'' 2 (- 1)) = 2"
  by code_simp

lemma example_classify:
  "classify_reads [''ACGTACGT'', ''ACGTACGT'']
     \<lparr>min_score = 10, match = 2, mismatch = - 1, gap_open = 5, gap_extend = 1\<rparr>
     (matrix_create ''ACGT'' 2 (- 1))
     [\<lparr>rec_id = ''r1'', rec_description = [], rec_seq = ''ACGTACGTTTTT'', rec_quality = None\<rparr>,
      \<lparr>rec_id = ''r2'', rec_description = [], rec_seq = ''GGGGGGGGGG'', rec_quality = None\<rparr>] =
   \<lparr>kept_reads =
      [\<lparr>rec_id = ''r2'', rec_description = [], rec_seq = ''GGGGGGGGGG'', rec_quality = None\<rparr>],
    discarded_reads =
      [\<lparr>rec_id = ''r1'', rec_description = [], rec_seq = ''ACGTACGTTTTT'', rec_quality = None\<rparr>],
    processed = 2\<rparr>"
  by (simp add: classify_reads_eq example_r1_contaminated example_r2_clean)

text \<open>
  Claim C3. On the adapter panel \<open>>A1 / ACGTACGT\<close>, the FASTA reads
  \<open>>r1 / ACGTACGTTTTT\<close> and \<open>>r2 / GGGGGGGGGG\<close> and the scoring match 2, mismatch -1,
  gap open 5, gap extend 1, threshold 10, the full classifier scores r1 at 16 against
  the adapter ACGTACGT and discards it, scores r2 at 2 and keeps it, and reports 2 reads
  in total, 1 kept and 1 discarded.
\<close>

theorem spec_example_scenario:
  "load_adapters ''>A1\<newline>ACGTACGT'' = [''ACGTACGT'', ''ACGTACGT'']
   \<and> SeqIO_parse ''>r1\<newline>ACGTACGTTTTT\<newline>>r2\<newline>GGGGGGGGGG'' (file_format_from_name ''reads.fasta'') =
       [\<lparr>rec_id = ''r1'', rec_description = [], rec_seq = ''ACGTACGTTTTT'', rec_quality = None\<rparr>,
        \<lparr>rec_id = ''r2'', rec_description = [], rec_seq = ''GGGGGGGGGG'', rec_quality = None\<rparr>]
   \<and> sw_scan_16 (upper ''ACGTACGTTTTT'') ''ACGTACGT'' 5 1 (matrix_create ''ACGT'' 2 (- 1)) = 16
   \<and> sw_scan_16 (upper ''GGGGGGGGGG'') ''ACGTACGT'' 5 1 (matrix_create ''ACGT'' 2 (- 1)) = 2
   \<and> classify_reads (load_adapters ''>A1\<newline>ACGTACGT'')
        \<lparr>min_score = 10, match = 2, mismatch = - 1, gap_open = 5, gap_extend = 1\<rparr>
        (matrix_create ''ACGT'' 2 (- 1))
        (SeqIO_parse ''>r1\<newline>ACGTACGTTTTT\<newline>>r2\<newline>GGGGGGGGGG''
           (file_format_from_name ''reads.fasta'')) =
       \<lparr>kept_reads =
          [\<lparr>rec_id = ''r2'', rec_description = [], rec_seq = ''GGGGGGGGGG'', rec_quality = None\<rparr>],
        discarded_reads =
          [\<lparr>rec_id = ''r1'', rec_description = [], rec_seq = ''ACGTACGTTTTT'', rec_quality = None\<rparr>],
        processed = 2\<rparr>
   \<and> filter_reads_web True ''>A1\<newline>ACGTACGT'' ''>r1\<newline>ACGTACGTTTTT\<newline>>r2\<newline>GGGGGGGGGG''
        ''reads.fasta'' \<lparr>min_score = 10, match = 2, mismatch = - 1, gap_open = 5, gap_extend = 1\<rparr> =
       (''>r2\<newline>GGGGGGGGGG\<newline>'', ''>r1\<newline>ACGTACGTTTTT\<newline>'',
        \<lparr>tool = ''Parasail SIMD Smith-Waterman Filter'', total_reads = 2, adapters_loaded = 1,
         reads_kept = 1, reads_discarded = 1\<rparr>)"
  by (simp only: example_adapters example_format example_parse example_score_r1 example_score_r2
      example_classify example_run_10 simp_thms)

section \<open>Fallback classification\<close>

lemma flush_fallback_eq:
  "flush_fallback ads cur = ads @ map upper (filter (\<lambda>s. s \<noteq> []) [cur])"
  by (simp add: flush_fallback_def)

lemma fallback_adapters_loop_bodies:
  "(case fallback_adapters_loop ls (ads, cur) of (a, c) \<Rightarrow> flush_fallback a c) =
     ads @ map upper (filter (\<lambda>s. s \<noteq> []) (record_bodies cur ls))"
proof (induction ls arbitrary: ads cur)
  case Nil
  show ?case by (simp add: flush_fallback_eq)
next
  case (Cons l ls)
  show ?case
  proof (cases "is_header (strip l)")
    case True
    then show ?thesis
      using Cons.IH [of "flush_fallback ads cur" "[]"]
      by (simp add: flush_fallback_eq)
  next
    case False
    then show ?thesis
      using Cons.IH [of ads "cur @ strip l"] by simp
  qed
qed

lemma fallback_adapters_bodies:
  "fallback_adapters txt =
     map upper (filter (\<lambda>s. s \<noteq> []) (fasta_bodies (split_nl (strip txt))))"
  using fallback_adapters_loop_bodies [of "split_nl (strip txt)" "[]" "[]"]
  by (simp add: fallback_adapters_def filter_fasta_bodies)

lemma any_adapter_in_iff:
  "any_adapter_in adapters seq = (\<exists>a \<in> set adapters. \<exists>pre post. seq = pre @ a @ post)"
  by (simp add: any_adapter_in_def list_ex_iff str_contains_def sublist_def)

text \<open>
  Claim C4, as amended. In fallback mode the adapters searched are the upper-cased
  forward sequences of the panel's records with a non-empty sequence, and no reverse
  complements; a read is classified contaminated exactly when one of these adapters is
  a contiguous substring of its upper-cased sequence; and the scoring parameters have
  no effect on the result.
\<close>

theorem fallback_forward_substring:
  "fallback_adapters ac = map upper (filter (\<lambda>s. s \<noteq> []) (fasta_bodies (split_nl (strip ac))))
   \<and> any_adapter_in adapters seq = (\<exists>a \<in> set adapters. \<exists>pre post. seq = pre @ a @ post)
   \<and> fb_classify adapters seq block st =
       (if \<exists>a \<in> set adapters. \<exists>pre post. seq = pre @ a @ post
        then st\<lparr>fb_processed := fb_processed st + 1,
                discarded_lines := discarded_lines st @ block,
                discarded_count := discarded_count st + 1\<rparr>
        else st\<lparr>fb_processed := fb_processed st + 1,
                kept_lines := kept_lines st @ block,
                kept_count := kept_count st + 1\<rparr>)
   \<and> discarded_lines (fallback_partition adapters fmt ls) =
       concat (map snd (filter (\<lambda>e. \<exists>a \<in> set adapters. \<exists>pre post. fst e = pre @ a @ post)
         (fallback_entries fmt ls)))
   \<and> kept_lines (fallback_partition adapters fmt ls) =
       concat (map snd (filter (\<lambda>e. \<not> (\<exists>a \<in> set adapters. \<exists>pre post. fst e = pre @ a @ post))
         (fallback_entries fmt ls)))
   \<and> simple_filter_fallback ac rc fn p = simple_filter_fallback ac rc fn p'"
proof -
  have 1: "fallback_adapters ac =
      map upper (filter (\<lambda>s. s \<noteq> []) (fasta_bodies (split_nl (strip ac))))"
    by (rule fallback_adapters_bodies)
  have 2: "any_adapter_in adapters seq = (\<exists>a \<in> set adapters. \<exists>pre post. seq = pre @ a @ post)"
    for seq
    by (rule any_adapter_in_iff)
  have 3: "fb_classify adapters seq block st =
       (if \<exists>a \<in> set adapters. \<exists>pre post. seq = pre @ a @ post
        then st\<lparr>fb_processed := fb_processed st + 1,
                discarded_lines := discarded_lines st @ block,
                discarded_count := discarded_count st + 1\<rparr>
        else st\<lparr>fb_processed := fb_processed st + 1,
                kept_lines := kept_lines st @ block,
                kept_count := kept_count st + 1\<rparr>)"
    by (simp only: fb_classify_eq 2)
  have 4: "discarded_lines (fallback_partition adapters fmt ls) =
       concat (map snd (filter (\<lambda>e. \<exists>a \<in> set adapters. \<exists>pre post. fst e = pre @ a @ post)
         (fallback_entries fmt ls)))"
    by (simp add: fallback_partition_route fb_route_def 2)
  have 5: "kept_lines (fallback_partition adapters fmt ls) =
       concat (map snd (filter (\<lambda>e. \<not> (\<exists>a \<in> set adapters. \<exists>pre post. fst e = pre @ a @ post))
         (fallback_entries fmt ls)))"
    by (simp add: fallback_partition_route fb_route_def 2)
  have 6: "simple_filter_fallback ac rc fn p = simple_filter_fallback ac rc fn p'"
    by (rule fallback_ignores_params)
  from 1 2 [of seq] 3 4 5 6 show ?thesis by (intro conjI)
qed

text \<open>
  The claim as stated fails: for the panel \<open>>A1 / AAAC\<close> the adapter loader gives the
  search sequences AAAC and GTTT, and the read GTTT contains the second, yet the
  fallback, which searches AAAC only, keeps the read.
\<close>

lemma reverse_strand_panel:
  "load_adapters ''>A1\<newline>AAAC'' = [''AAAC'', ''GTTT'']
   \<and> fallback_adapters ''>A1\<newline>AAAC'' = [''AAAC'']"
  by code_simp

lemma reverse_strand_read_run:
  "simple_filter_fallback ''>A1\<newline>AAAC'' ''>r1\<newline>GTTT'' ''reads.fasta''
     \<lparr>min_score = 10, match = 2, mismatch = - 1, gap_open = 5, gap_extend = 1\<rparr> =
   (''>r1\<newline>GTTT\<newline>'', [],
    \<lparr>tool = ''Simple substring-based filter'', total_reads = 1, adapters_loaded = 1,
     reads_kept = 1, reads_discarded = 0\<rparr>)"
  by code_simp

lemma reverse_strand_read_contains: "str_contains (upper ''GTTT'') ''GTTT''"
  by code_simp

lemma reverse_strand_read_miss: "\<not> any_adapter_in (fallback_adapters ''>A1\<newline>AAAC'') (upper ''GTTT'')"
  by code_simp

theorem fallback_misses_reverse_complement:
  "load_adapters ''>A1\<newline>AAAC'' = [''AAAC'', ''GTTT'']
   \<and> str_contains (upper ''GTTT'') ''GTTT''
   \<and> fallback_adapters ''>A1\<newline>AAAC'' = [''AAAC'']
   \<and> \<not> any_adapter_in (fallback_adapters ''>A1\<newline>AAAC'') (upper ''GTTT'')
   \<and> simple_filter_fallback ''>A1\<newline>AAAC'' ''>r1\<newline>GTTT'' ''reads.fasta''
        \<lparr>min_score = 10, match = 2, mismatch = - 1, gap_open = 5, gap_extend = 1\<rparr> =
      (''>r1\<newline>GTTT\<newline>'', [],
       \<lparr>tool = ''Simple substring-based filter'', total_reads = 1, adapters_loaded = 1,
        reads_kept = 1, reads_discarded = 0\<rparr>)"
  using reverse_strand_panel reverse_strand_read_run reverse_strand_read_contains
    reverse_strand_read_miss
  by (intro conjI) simp_all


theorem fallback_forward_substring_witness:
  "fallback_adapters ''>A1\<newline>AAAC'' = [''AAAC'']
   \<and> ''GGAAACTT'' = ''GG'' @ ''AAAC'' @ ''TT''
   \<and> any_adapter_in [''AAAC''] ''GGAAACTT''
   \<and> \<not> any_adapter_in [''AAAC''] ''GTTT''
   \<and> simple_filter_fallback ''>A1\<newline>AAAC'' ''>r1\<newline>GTTT'' ''reads.fasta''
        \<lparr>min_score = 10, match = 2, mismatch = - 1, gap_open = 5, gap_extend = 1\<rparr> =
      simple_filter_fallback ''>A1\<newline>AAAC'' ''>r1\<newline>GTTT'' ''reads.fasta''
        \<lparr>min_score = 1, match = 5, mismatch = - 4, gap_open = 0, gap_extend = 0\<rparr>"
proof -
  have split: "''GGAAACTT'' = ''GG'' @ ''AAAC'' @ ''TT''" by simp
  then have ex: "\<exists>a \<in> set [''AAAC'']. \<exists>pre post. ''GGAAACTT'' = pre @ a @ post"
    by (metis list.set_intros(1))
  have hit: "any_adapter_in [''AAAC''] ''GGAAACTT''"
    using fallback_forward_substring
      [where adapters = "[''AAAC'']" and seq = "''GGAAACTT''" and ac = "[]" and rc = "[]"
        and fn = "[]" and fmt = "[]" and ls = "[]"] ex
    by blast
  have same: "simple_filter_fallback ''>A1\<newline>AAAC'' ''>r1\<newline>GTTT'' ''reads.fasta''
        \<lparr>min_score = 10, match = 2, mismatch = - 1, gap_open = 5, gap_extend = 1\<rparr> =
      simple_filter_fallback ''>A1\<newline>AAAC'' ''>r1\<newline>GTTT'' ''reads.fasta''
        \<lparr>min_score = 1, match = 5, mismatch = - 4, gap_open = 0, gap_extend = 0\<rparr>"
    using fallback_forward_substring
      [where ac = "''>A1\<newline>AAAC''" and rc = "''>r1\<newline>GTTT''" and fn = "''reads.fasta''"
        and p = "\<lparr>min_score = 10, match = 2, mismatch = - 1, gap_open = 5, gap_extend = 1\<rparr>"
        and p' = "\<lparr>min_score = 1, match = 5, mismatch = - 4, gap_open = 0, gap_extend = 0\<rparr>"
        and adapters = "[]" and seq = "[]" and fmt = "[]" and ls = "[]"]
    by blast
  have ads: "fallback_adapters ''>A1\<newline>AAAC'' = [''AAAC'']"
    using reverse_strand_panel by simp
  from ads split hit example_miss same show ?thesis by (intro conjI)
qed

end
